theory Spec2Isabelle
  imports Complex_Main "HOL-Library.Word"
begin

section \<open>RisWidget renderer: data model\<close>

text \<open>
  The renderer of RisWidget (Renderer.cpp, stored under src/cpp/View.h after the View
  class declaration) embedded as pure functions over an explicit state.
  \<^item> \<open>GLuint\<close> is a 32-bit word and \<open>GLushort\<close> a 16-bit word; \<open><\<close> on words is the
    unsigned order, as in C++.
  \<^item> \<open>ImageData\<close> is \<open>std::vector<GLushort>\<close> and \<open>HistogramData\<close> is
    \<open>std::vector<GLuint>\<close>: lists.
  \<^item> \<open>QSize\<close> holds two C++ ints; they are only compared and passed on, so they are
    \<open>int\<close>.
  \<^item> A \<open>GLfloat\<close> is a finite value, one of the two infinities or NaN. A finite value is
    a real (the two zeros are one value, as they are for the comparisons of C++); rounding is
    not modelled, so the conversion of an integer is taken as exact (it is for every
    \<open>GLushort\<close>, and for a \<open>GLuint\<close> below 2^24). \<open>float_ne\<close> is \<open>!=\<close> on floats:
    NaN is unequal to every value, itself included. \<open>vec2_ne\<close> is \<open>!=\<close> of
    \<open>glm::vec2\<close>: some component is unequal.
  \<^item> A \<open>View*\<close> argument is one of the two views the renderer holds or any other pointer.
  \<^item> A thrown \<open>RisWidgetException\<close> is a value; the constructors stand for the messages of
    the throw statements. An operation that can throw returns the exception (if any)
    together with the state at the moment of the throw.
  \<^item> The three signals connected with \<open>Qt::QueuedConnection\<close> are messages appended to
    the renderer thread's queue; \<open>newImageExtrema\<close> is recorded as an emitted signal.
\<close>

type_synonym GLuint = "32 word"
type_synonym GLushort = "16 word"
type_synonym ImageData = "GLushort list"
type_synonym HistogramData = "GLuint list"

datatype GLfloat = Finite real | PosInf | NegInf | NaN

definition float_ne :: "GLfloat \<Rightarrow> GLfloat \<Rightarrow> bool" where
  "float_ne a b \<longleftrightarrow> a = NaN \<or> b = NaN \<or> a \<noteq> b"

definition vec2_ne :: "GLfloat \<times> GLfloat \<Rightarrow> GLfloat \<times> GLfloat \<Rightarrow> bool" where
  "vec2_ne a b \<longleftrightarrow> float_ne (fst a) (fst b) \<or> float_ne (snd a) (snd b)"

definition GLfloat_of_GLushort :: "GLushort \<Rightarrow> GLfloat" where
  "GLfloat_of_GLushort v = Finite (real (unat v))"

definition GLfloat_of_GLuint :: "GLuint \<Rightarrow> GLfloat" where
  "GLfloat_of_GLuint v = Finite (real (unat v))"

record QSize =
  width :: int
  height :: int

datatype View = ImageView | HistogramView | OtherView nat

datatype RisWidgetException =
    UpdateViewUnknownView
  | ShowImageBadSize
  | ThreadInitCalledTwice
  | ImageContextCreateFailed
  | HistogramContextCreateFailed
  | GlfsRetrieveFailed
  | GlfsInitializeFailed

datatype Message =
    UpdateViewMsg View
  | NewImageMsg ImageData QSize bool
  | SetHistogramBinCountMsg GLuint

datatype Signal = NewImageExtrema GLushort GLushort

text \<open>
  OpenGL and the two surfaces are outside the repository. Every call the renderer makes
  through \<open>m_glfs\<close>, \<open>makeCurrent\<close> and \<open>swapBuffers\<close> is recorded, in order, as a
  \<open>GlCall\<close>. Resource names, uniform values and uploaded data are kept as arguments;
  constant arguments (levels, formats, offsets) and the floating-point matrices and colours
  are left out. Uniform and binding locations are members of the program objects
  (GlProgram.h is not under src); they are named after the member that holds them.
\<close>

datatype GlProgId = HistoCalcProgId | HistoConsolidateProgId | ImageDrawProgId | HistoDrawProgId

datatype GlTarget =
  GL_TEXTURE_1D | GL_TEXTURE_2D | GL_TEXTURE_2D_ARRAY | GL_SHADER_STORAGE_BUFFER | GL_ARRAY_BUFFER

datatype GlAccess = GL_READ_ONLY | GL_WRITE_ONLY | GL_READ_WRITE

datatype GlTexParam =
  GL_TEXTURE_WRAP_S | GL_TEXTURE_WRAP_T | GL_TEXTURE_MIN_FILTER | GL_TEXTURE_MAG_FILTER

datatype GlTexValue = GL_CLAMP_TO_EDGE | GL_LINEAR | GL_NEAREST

datatype GlDrawMode = GL_TRIANGLE_FAN | GL_LINE_STRIP | GL_POINTS

datatype GlBarrier =
  ImageAccessBarrier | BufferUpdateBarrier | ImageAccessAndBufferUpdateBarrier

datatype Subroutine =
    imagePanelGammaTransformColorerHighlightIdx
  | imagePanelPassthroughColorerHighlightIdx
  | imagePanelGammaTransformColorerIdx
  | imagePanelPassthroughColorerIdx

datatype Loc =
    HistoCalc_invocationRegionSizeLoc
  | HistoCalc_binCountLoc
  | HistoCalc_imageLoc
  | HistoCalc_blocksLoc
  | HistoConsolidate_binCountLoc
  | HistoConsolidate_invocationBinCountLoc
  | HistoConsolidate_blocksLoc
  | HistoConsolidate_histogramLoc
  | HistoConsolidate_extremaLoc
  | ImageDraw_projectionModelViewMatrixLoc
  | ImageDraw_highlightCoordsLoc
  | ImageDraw_gtpMinLoc
  | ImageDraw_gtpMaxLoc
  | ImageDraw_gtpGammaLoc
  | HistoDraw_gammaGammaLoc
  | HistoDraw_binCountLoc
  | HistoDraw_binScaleLoc
  | HistoDraw_projectionModelViewMatrixLoc
  | HistoDraw_binIndexLoc
  | HistoDraw_histogramLoc

datatype GlCall =
    MakeCurrent View
  | SwapBuffers View
  | BuildProgram GlProgId
  | UseProgram GlProgId
  | GenTextures GLuint
  | DeleteTextures GLuint
  | BindTexture GlTarget GLuint
  | TexStorage1D GLuint
  | TexStorage2D int int
  | TexStorage3D int int GLuint
  | TexSubImage1D GLuint HistogramData
  | TexSubImage2D int int ImageData
  | TexSubImage3D int int GLuint
  | TexParameteri GlTexParam GlTexValue
  | Uniform1f Loc GLfloat
  | Uniform1ui Loc GLuint
  | Uniform2i Loc int int
  | UniformMatrix4fv Loc
  | UniformSubroutinesuiv Subroutine
  | BindImageTexture Loc GLuint bool GlAccess
  | BindBuffer GlTarget GLuint
  | BindBufferBase Loc GLuint
  | BufferSubDataUInt "GLuint list"
  | BufferSubDataFloat "GLfloat list"
  | BufferData "GLfloat list"
  | GetTexImage GlTarget
  | GetBufferSubData nat nat
  | DispatchCompute int int int
  | MemoryBarrier GlBarrier
  | Viewport int int
  | ClearColor
  | ClearDepth
  | Clear
  | GenVertexArrays GLuint
  | BindVertexArray GLuint
  | DeleteVertexArrays GLuint
  | GenBuffers GLuint
  | DeleteBuffers GLuint
  | EnableVertexAttribArray Loc
  | VertexAttribPointer Loc
  | DrawArrays GlDrawMode GLuint
  | PointSize

section \<open>Widgets, program objects and the renderer state\<close>

text \<open>
  The widgets belong to the windowing layer; the renderer reads and writes some of their
  members under the widget's own lock. \<open>ViewWidget\<close> is the base class with the two sizes
  that \<open>updateGlViewportSize\<close> compares; \<open>ImageWidget\<close> and \<open>HistogramWidget\<close> add the
  members that \<open>execImageDraw\<close> and \<open>execHistoDraw\<close> read. The members that only feed
  the projection matrix (zoom, pan, clear colour) are left out together with the matrix.
\<close>

record ViewWidget =
  m_viewSize :: QSize
  m_viewGlSize :: QSize

record ImageWidget = ViewWidget +
  m_highlightPointer :: bool
  m_pointerIsOnImagePixel :: bool
  m_pointerImagePixelCoord :: "int \<times> int"

record HistogramWidget = ViewWidget +
  m_gtpEnabled :: bool
  m_gtpAutoMinMaxEnabled :: bool
  m_gtpMin :: GLushort
  m_gtpMax :: GLushort
  m_gtpGamma :: GLfloat
  m_gtpGammaGamma :: GLfloat

text \<open>
  The four program objects (GlProgram.h is not under src). Their members are the ones the
  renderer uses: the compile-time counts of the compute shaders, the buffers and vertex
  arrays made when a program is built, and the cached uniform values. \<open>extrema\<close> is the
  two-element array \<open>extrema[0]\<close>, \<open>extrema[1]\<close>. The cached \<open>gtpMin\<close> and \<open>gtpMax\<close>
  are compared with a \<open>GLushort\<close> and assigned from it; they are taken as \<open>GLfloat\<close>
  members, like the cached gamma, which also covers 16-bit members (these hold the image of
  a \<open>GLushort\<close> only, on which \<open>float_ne\<close> is \<open>!=\<close> of the integers).
\<close>

record HistoCalcProg =
  wgCountPerAxis :: int
  liCountPerAxis :: int

record HistoConsolidateProg =
  liCount :: int
  extrema :: "GLuint \<times> GLuint"
  extremaBuff :: GLuint

record ImageDrawProg =
  gtpEnabled :: bool
  gtpMin :: GLfloat
  gtpMax :: GLfloat
  gtpGamma :: GLfloat
  wantedHighlightCoord :: "GLfloat \<times> GLfloat"
  actualHighlightCoord :: "GLfloat \<times> GLfloat"
  highlightCoordsBuff :: GLuint
  quadVao :: GLuint

record HistoDrawProg =
  gammaGamma :: GLfloat
  pointVao :: GLuint
  pointVaoBuff :: GLuint

text \<open>
  The members of \<open>Renderer\<close> that the functions below read or write. \<open>m_glfs\<close> tells
  whether the function-bundle pointer is non-null. \<open>m_imageExtremaFuture\<close> is \<open>None\<close>
  for a future that is not valid and \<open>Some imageData\<close> for the future of
  \<open>std::async(&Renderer::findImageExtrema, imageData)\<close>, whose \<open>get()\<close> returns
  \<open>findImageExtrema imageData\<close>. The lock, the widget pointers and
  \<open>m_imageAspectRatio\<close> (a float used only for the matrix) are not represented: every
  function below runs as one atomic step, which is what the recursive mutex gives the
  sections that hold it.
\<close>

record Renderer =
  m_threadInited :: bool
  m_imageViewUpdatePending :: bool
  m_histogramViewUpdatePending :: bool
  m_glfs :: bool
  m_histoCalcProg :: HistoCalcProg
  m_histoConsolidateProg :: HistoConsolidateProg
  m_imageDrawProg :: ImageDrawProg
  m_histoDrawProg :: HistoDrawProg
  m_image :: GLuint
  m_imageData :: ImageData
  m_imageSize :: QSize
  m_imageExtremaFuture :: "ImageData option"
  m_imageExtrema :: "GLushort \<times> GLushort"
  m_histogramBinCount :: GLuint
  m_histogramBlocks :: GLuint
  m_histogram :: GLuint
  m_histogramData :: HistogramData

text \<open>
  The state of the whole system extends the renderer's members with what the renderer
  shares with its collaborators: whether each view has a context (\<open>view->m_context\<close>),
  the two widgets, the queue of the renderer thread, the signals emitted so far, whether
  the renderer thread delivers queued messages yet, and OpenGL: the log of calls and the
  names in use in each of the three name spaces the renderer allocates from.
\<close>

record System = Renderer +
  m_imageView_context :: bool
  m_histogramView_context :: bool
  m_imageWidget :: ImageWidget
  m_histogramWidget :: HistogramWidget
  queue :: "Message list"
  emitted :: "Signal list"
  eventLoop :: bool
  glLog :: "GlCall list"
  glTextures :: "GLuint list"
  glVertexArrays :: "GLuint list"
  glBuffers :: "GLuint list"

text \<open>
  What the GPU writes back is not determined by the repository's C++ code: the histogram
  read by \<open>glGetTexImage\<close>, the two extrema and the highlight coordinate read by
  \<open>glGetBufferSubData\<close>. A delivery carries these values. \<open>InitEnv\<close> tells which of the
  steps of thread initialisation succeed.
\<close>

record Gpu =
  gpu_histogram :: "nat \<Rightarrow> GLuint"
  gpu_extrema :: "GLuint \<times> GLuint"
  gpu_actualHighlightCoord :: "GLfloat \<times> GLfloat"

record InitEnv =
  imageContextCreates :: bool
  histogramContextCreates :: bool
  versionFunctionsFound :: bool
  functionsInitialize :: bool


section \<open>Renderer::findImageExtrema\<close>

text \<open>
  The body of the range-for loop: \<open>ret.first\<close> is \<open>mn\<close>, \<open>ret.second\<close> is \<open>mx\<close>;
  the second comparison is made only when the first one fails (else-if).
\<close>

fun scanPixel :: "GLushort \<times> GLushort \<Rightarrow> GLushort \<Rightarrow> GLushort \<times> GLushort" where
  "scanPixel (mn, mx) p =
     (if p < mn then (p, mx)
      else if p > mx then (mn, p)
      else (mn, mx))"

text \<open>
  The loop \<open>for(GLushort p : imageData)\<close>, in order, threading \<open>ret\<close>.
\<close>

fun scanPixels :: "GLushort \<times> GLushort \<Rightarrow> ImageData \<Rightarrow> GLushort \<times> GLushort" where
  "scanPixels ret [] = ret"
| "scanPixels ret (p # ps) = scanPixels (scanPixel ret p) ps"

text \<open>
  \<open>ret\<close> starts as \<open>{65535, 0}\<close>; a one-element image sets both components to
  \<open>imageData[0]\<close>, every other size (the empty image too) runs the loop.
\<close>

definition findImageExtrema :: "ImageData \<Rightarrow> GLushort \<times> GLushort" where
  "findImageExtrema imageData =
     (if length imageData = 1 then (imageData ! 0, imageData ! 0)
      else scanPixels (65535, 0) imageData)"

section \<open>OpenGL calls\<close>

text \<open>
  \<open>GLuint_max\<close> is \<open>std::numeric_limits<GLuint>::max()\<close>, the value of a handle that is
  not allocated. \<open>glGen...\<close> returns a name that is not in use: the model takes the least
  unused name from 1 on, as drivers commonly do; the proofs use only that the name is
  unused, not 0 and not \<open>GLuint_max\<close>.
\<close>

definition GLuint_max :: GLuint where
  "GLuint_max = 4294967295"

definition freshName :: "GLuint list \<Rightarrow> GLuint" where
  "freshName used =
     (case filter (\<lambda>n. n \<notin> set used) (map of_nat [1 ..< length used + 2]) of
        [] \<Rightarrow> 0
      | n # _ \<Rightarrow> n)"

text \<open>
  Function bodies are written as pipelines over the state: \<open>seq\<close> runs statements in
  order, \<open>cond\<close> is an if without else, \<open>condElse\<close> an if with else, and \<open>reading\<close>
  binds a local variable to a value read from the current state.
\<close>

definition seq :: "('s \<Rightarrow> 's) list \<Rightarrow> 's \<Rightarrow> 's" where
  "seq fs s = fold (\<lambda>f. f) fs s"

definition cond :: "('s \<Rightarrow> bool) \<Rightarrow> ('s \<Rightarrow> 's) \<Rightarrow> 's \<Rightarrow> 's" where
  "cond c f s = (if c s then f s else s)"

definition condElse :: "('s \<Rightarrow> bool) \<Rightarrow> ('s \<Rightarrow> 's) \<Rightarrow> ('s \<Rightarrow> 's) \<Rightarrow> 's \<Rightarrow> 's" where
  "condElse c f g s = (if c s then f s else g s)"

definition reading :: "('s \<Rightarrow> 'v) \<Rightarrow> ('v \<Rightarrow> 's \<Rightarrow> 's) \<Rightarrow> 's \<Rightarrow> 's" where
  "reading rd body s = body (rd s) s"

text \<open>
  \<open>glCalls\<close> appends calls to the log; \<open>glCallsOf\<close> does so for calls whose arguments
  are read from the state. The \<open>glGen...\<close> functions take the assignment to the handle
  they write through their pointer argument; the \<open>glDelete...\<close> functions release a name.
\<close>

definition glCalls :: "GlCall list \<Rightarrow> System \<Rightarrow> System" where
  "glCalls cs s = s\<lparr>glLog := glLog s @ cs\<rparr>"

definition glCallsOf :: "(System \<Rightarrow> GlCall list) \<Rightarrow> System \<Rightarrow> System" where
  "glCallsOf cs s = glCalls (cs s) s"

definition glGenTextures :: "(GLuint \<Rightarrow> System \<Rightarrow> System) \<Rightarrow> System \<Rightarrow> System" where
  "glGenTextures store s =
     (let n = freshName (glTextures s)
      in store n (s\<lparr>glLog := glLog s @ [GenTextures n], glTextures := n # glTextures s\<rparr>))"

definition glDeleteTextures :: "GLuint \<Rightarrow> System \<Rightarrow> System" where
  "glDeleteTextures h s =
     s\<lparr>glLog := glLog s @ [DeleteTextures h], glTextures := removeAll h (glTextures s)\<rparr>"

definition glGenVertexArrays :: "(GLuint \<Rightarrow> System \<Rightarrow> System) \<Rightarrow> System \<Rightarrow> System" where
  "glGenVertexArrays store s =
     (let n = freshName (glVertexArrays s)
      in store n (s\<lparr>glLog := glLog s @ [GenVertexArrays n],
                      glVertexArrays := n # glVertexArrays s\<rparr>))"

definition glDeleteVertexArrays :: "GLuint \<Rightarrow> System \<Rightarrow> System" where
  "glDeleteVertexArrays h s =
     s\<lparr>glLog := glLog s @ [DeleteVertexArrays h],
       glVertexArrays := removeAll h (glVertexArrays s)\<rparr>"

definition glGenBuffers :: "(GLuint \<Rightarrow> System \<Rightarrow> System) \<Rightarrow> System \<Rightarrow> System" where
  "glGenBuffers store s =
     (let n = freshName (glBuffers s)
      in store n (s\<lparr>glLog := glLog s @ [GenBuffers n], glBuffers := n # glBuffers s\<rparr>))"

definition glDeleteBuffers :: "GLuint \<Rightarrow> System \<Rightarrow> System" where
  "glDeleteBuffers h s =
     s\<lparr>glLog := glLog s @ [DeleteBuffers h], glBuffers := removeAll h (glBuffers s)\<rparr>"

section \<open>Requests from the caller thread\<close>

text \<open>
  \<open>Renderer::updateView\<close>: the view selects the flag or the throw; then, under the lock,
  the flag is set and \<open>_updateView\<close> is emitted if the flag is clear and the view has a
  context. \<open>Renderer::showImage\<close> and \<open>Renderer::setHistogramBinCount\<close> follow.
\<close>

definition updateView :: "View \<Rightarrow> System \<Rightarrow> RisWidgetException option \<times> System" where
  "updateView view s =
     (case view of
        ImageView \<Rightarrow>
          (None,
           if \<not> m_imageViewUpdatePending s \<and> m_imageView_context s
           then s\<lparr>m_imageViewUpdatePending := True, queue := queue s @ [UpdateViewMsg view]\<rparr>
           else s)
      | HistogramView \<Rightarrow>
          (None,
           if \<not> m_histogramViewUpdatePending s \<and> m_histogramView_context s
           then s\<lparr>m_histogramViewUpdatePending := True, queue := queue s @ [UpdateViewMsg view]\<rparr>
           else s)
      | OtherView n \<Rightarrow> (Some UpdateViewUnknownView, s))"

definition showImage ::
    "ImageData \<Rightarrow> QSize \<Rightarrow> bool \<Rightarrow> System \<Rightarrow> RisWidgetException option \<times> System" where
  "showImage imageData imageSize filter' s =
     (if imageData \<noteq> [] then
        if width imageSize \<le> 0 \<or> height imageSize \<le> 0 then (Some ShowImageBadSize, s)
        else (None, s\<lparr>m_imageExtremaFuture := Some imageData,
                       queue := queue s @ [NewImageMsg imageData imageSize filter']\<rparr>)
      else (None, s\<lparr>m_imageExtremaFuture := None,
                     queue := queue s @ [NewImageMsg imageData imageSize filter']\<rparr>))"

definition setHistogramBinCount :: "GLuint \<Rightarrow> System \<Rightarrow> System" where
  "setHistogramBinCount histogramBinCount s =
     s\<lparr>queue := queue s @ [SetHistogramBinCountMsg histogramBinCount]\<rparr>"

section \<open>Releasing GPU resources\<close>

text \<open>
  \<open>Renderer::delImage\<close>, \<open>Renderer::delHistogramBlocks\<close> and \<open>Renderer::delHistogram\<close>,
  statement by statement.
\<close>

definition delImage :: "System \<Rightarrow> System" where
  "delImage =
     cond (\<lambda>s. m_image s \<noteq> GLuint_max)
       (seq [\<lambda>s. s\<lparr>m_imageData := []\<rparr>,
             reading m_image glDeleteTextures,
             \<lambda>s. s\<lparr>m_image := GLuint_max\<rparr>,
             m_imageSize_update (\<lambda>sz. sz\<lparr>width := 0\<rparr>),
             m_imageSize_update (\<lambda>sz. sz\<lparr>height := 0\<rparr>)])"

definition delHistogramBlocks :: "System \<Rightarrow> System" where
  "delHistogramBlocks =
     cond (\<lambda>s. m_histogramBlocks s \<noteq> GLuint_max)
       (seq [reading m_histogramBlocks glDeleteTextures,
             \<lambda>s. s\<lparr>m_histogramBlocks := GLuint_max\<rparr>])"

definition delHistogram :: "System \<Rightarrow> System" where
  "delHistogram =
     cond (\<lambda>s. m_histogram s \<noteq> GLuint_max)
       (seq [reading m_histogram glDeleteTextures,
             \<lambda>s. s\<lparr>m_histogram := GLuint_max\<rparr>,
             glCalls [MakeCurrent HistogramView, UseProgram HistoDrawProgId],
             reading (\<lambda>s. pointVao (m_histoDrawProg s)) glDeleteVertexArrays,
             m_histoDrawProg_update (\<lambda>prog. prog\<lparr>pointVao := GLuint_max\<rparr>),
             reading (\<lambda>s. pointVaoBuff (m_histoDrawProg s)) glDeleteBuffers,
             m_histoDrawProg_update (\<lambda>prog. prog\<lparr>pointVaoBuff := GLuint_max\<rparr>)])"

section \<open>Thread initialisation\<close>

text \<open>
  \<open>Renderer::makeContexts\<close>, \<open>Renderer::makeGlfs\<close> and \<open>Renderer::buildGlProgs\<close> (without
  the ENABLE_GL_DEBUG_LOGGING parts). The contexts are assigned before \<open>create()\<close> is
  called, so a throw leaves them set. \<open>GlProgram::build\<close> is not under src; it is recorded
  as a call.
\<close>

definition makeContexts :: "InitEnv \<Rightarrow> System \<Rightarrow> RisWidgetException option \<times> System" where
  "makeContexts env s =
     (let s = s\<lparr>m_imageView_context := True\<rparr>;
          s = s\<lparr>m_histogramView_context := True\<rparr>
      in if \<not> imageContextCreates env then (Some ImageContextCreateFailed, s)
         else if \<not> histogramContextCreates env then (Some HistogramContextCreateFailed, s)
         else (None, s))"

definition makeGlfs :: "InitEnv \<Rightarrow> System \<Rightarrow> RisWidgetException option \<times> System" where
  "makeGlfs env s =
     (let s = glCalls [MakeCurrent ImageView] s;
          s = s\<lparr>m_glfs := versionFunctionsFound env\<rparr>
      in if \<not> versionFunctionsFound env then (Some GlfsRetrieveFailed, s)
         else if \<not> functionsInitialize env then (Some GlfsInitializeFailed, s)
         else (None, s))"

definition buildGlProgs :: "System \<Rightarrow> System" where
  "buildGlProgs =
     glCalls [MakeCurrent HistogramView,
              BuildProgram HistoCalcProgId,
              BuildProgram HistoConsolidateProgId,
              BuildProgram HistoDrawProgId,
              MakeCurrent ImageView,
              BuildProgram ImageDrawProgId]"

section \<open>The histogram passes\<close>

text \<open>
  \<open>ceilDiv a b\<close> is \<open>ceil(static_cast<double>(a) / b)\<close> (the counts it is divided by are
  positive constants of the shaders). \<open>Renderer::execHistoCalc\<close> follows.
\<close>

definition ceilDiv :: "int \<Rightarrow> int \<Rightarrow> int" where
  "ceilDiv a b = \<lceil>real_of_int a / real_of_int b\<rceil>"

definition execHistoCalc :: "System \<Rightarrow> System" where
  "execHistoCalc =
     seq [glCalls [MakeCurrent HistogramView, UseProgram HistoCalcProgId],
          condElse (\<lambda>s. m_histogramBlocks s = GLuint_max)
            (seq [glGenTextures (\<lambda>n s. s\<lparr>m_histogramBlocks := n\<rparr>),
                  glCallsOf (\<lambda>s.
                    [BindTexture GL_TEXTURE_2D_ARRAY (m_histogramBlocks s),
                     TexStorage3D (wgCountPerAxis (m_histoCalcProg s))
                                  (wgCountPerAxis (m_histoCalcProg s))
                                  (m_histogramBinCount s)])])
            (glCallsOf (\<lambda>s. [BindTexture GL_TEXTURE_2D_ARRAY (m_histogramBlocks s)])),
          glCallsOf (\<lambda>s.
            [TexSubImage3D (wgCountPerAxis (m_histoCalcProg s))
                           (wgCountPerAxis (m_histoCalcProg s))
                           (m_histogramBinCount s)]),
          reading (\<lambda>s. wgCountPerAxis (m_histoCalcProg s) * liCountPerAxis (m_histoCalcProg s))
            (\<lambda>axisInvocations. glCallsOf (\<lambda>s.
               [Uniform2i HistoCalc_invocationRegionSizeLoc
                  (ceilDiv (width (m_imageSize s)) axisInvocations)
                  (ceilDiv (height (m_imageSize s)) axisInvocations),
                Uniform1f HistoCalc_binCountLoc (GLfloat_of_GLuint (m_histogramBinCount s))])),
          glCallsOf (\<lambda>s.
            [BindTexture GL_TEXTURE_2D 0,
             BindImageTexture HistoCalc_imageLoc (m_image s) False GL_READ_ONLY,
             BindTexture GL_TEXTURE_2D_ARRAY 0,
             BindImageTexture HistoCalc_blocksLoc (m_histogramBlocks s) True GL_WRITE_ONLY,
             DispatchCompute (wgCountPerAxis (m_histoCalcProg s))
                             (wgCountPerAxis (m_histoCalcProg s)) 1,
             MemoryBarrier ImageAccessBarrier])]"

text \<open>
  \<open>std::vector::resize(n, v)\<close>: truncate or pad with \<open>v\<close>. \<open>Renderer::execHistoConsolidate\<close>
  is given in its three parts, named after the comments of the source: set up data,
  execute, retrieve results. \<open>glGetTexImage\<close> writes one value for each of the
  \<open>m_histogramBinCount\<close> texels to the start of \<open>m_histogramData\<close>.
\<close>

definition resize :: "nat \<Rightarrow> 'a \<Rightarrow> 'a list \<Rightarrow> 'a list" where
  "resize n v xs = take n xs @ replicate (n - length xs) v"

definition execHistoConsolidate_setup :: "System \<Rightarrow> System" where
  "execHistoConsolidate_setup =
     seq [glCalls [MakeCurrent HistogramView, UseProgram HistoConsolidateProgId],
          condElse (\<lambda>s. m_histogram s = GLuint_max)
            (seq [glGenTextures (\<lambda>n s. s\<lparr>m_histogram := n\<rparr>),
                  glCallsOf (\<lambda>s.
                    [BindTexture GL_TEXTURE_1D (m_histogram s),
                     TexStorage1D (m_histogramBinCount s)])])
            (glCallsOf (\<lambda>s. [BindTexture GL_TEXTURE_1D (m_histogram s)])),
          cond (\<lambda>s. length (m_histogramData s) \<noteq> unat (m_histogramBinCount s))
            (reading (\<lambda>s. unat (m_histogramBinCount s))
               (\<lambda>n. m_histogramData_update (resize n 0))),
          m_histogramData_update (map (\<lambda>_. 0)),
          glCallsOf (\<lambda>s.
            [TexSubImage1D (m_histogramBinCount s) (m_histogramData s),
             Uniform1ui HistoConsolidate_binCountLoc (m_histogramBinCount s),
             Uniform1ui HistoConsolidate_invocationBinCountLoc
               (of_int (ceilDiv (uint (m_histogramBinCount s))
                                (liCount (m_histoConsolidateProg s)))),
             BindBuffer GL_SHADER_STORAGE_BUFFER (extremaBuff (m_histoConsolidateProg s))]),
          m_histoConsolidateProg_update (\<lambda>prog. prog\<lparr>extrema := (GLuint_max, 0)\<rparr>),
          glCallsOf (\<lambda>s.
            [BufferSubDataUInt [fst (extrema (m_histoConsolidateProg s)),
                                snd (extrema (m_histoConsolidateProg s))]])]"

definition execHistoConsolidate_execute :: "System \<Rightarrow> System" where
  "execHistoConsolidate_execute =
     glCallsOf (\<lambda>s.
       [BindTexture GL_TEXTURE_2D_ARRAY 0,
        BindImageTexture HistoConsolidate_blocksLoc (m_histogramBlocks s) True GL_READ_ONLY,
        BindTexture GL_TEXTURE_1D 0,
        BindImageTexture HistoConsolidate_histogramLoc (m_histogram s) False GL_READ_WRITE,
        BindBuffer GL_SHADER_STORAGE_BUFFER 0,
        BindBufferBase HistoConsolidate_extremaLoc (extremaBuff (m_histoConsolidateProg s)),
        DispatchCompute (wgCountPerAxis (m_histoCalcProg s))
                        (wgCountPerAxis (m_histoCalcProg s)) 1,
        MemoryBarrier ImageAccessAndBufferUpdateBarrier])"

definition execHistoConsolidate_retrieve :: "Gpu \<Rightarrow> System \<Rightarrow> System" where
  "execHistoConsolidate_retrieve gpu =
     seq [glCallsOf (\<lambda>s. [BindTexture GL_TEXTURE_1D (m_histogram s), GetTexImage GL_TEXTURE_1D]),
          reading (\<lambda>s. unat (m_histogramBinCount s))
            (\<lambda>n. m_histogramData_update
                    (\<lambda>data. map (gpu_histogram gpu) [0 ..< n] @ drop n data)),
          glCallsOf (\<lambda>s.
            [BindBuffer GL_SHADER_STORAGE_BUFFER (extremaBuff (m_histoConsolidateProg s)),
             GetBufferSubData 0 8]),
          m_histoConsolidateProg_update (\<lambda>prog. prog\<lparr>extrema := gpu_extrema gpu\<rparr>)]"

definition execHistoConsolidate :: "Gpu \<Rightarrow> System \<Rightarrow> System" where
  "execHistoConsolidate gpu =
     seq [execHistoConsolidate_setup,
          execHistoConsolidate_execute,
          execHistoConsolidate_retrieve gpu]"

section \<open>Drawing\<close>

text \<open>
  \<open>Renderer::updateGlViewportSize\<close> takes a pointer to a widget: here the member of the
  state that holds the widget, with its update function.
\<close>

definition updateGlViewportSize ::
    "(System \<Rightarrow> 'w ViewWidget_scheme) \<Rightarrow>
     (('w ViewWidget_scheme \<Rightarrow> 'w ViewWidget_scheme) \<Rightarrow> System \<Rightarrow> System) \<Rightarrow>
     System \<Rightarrow> System" where
  "updateGlViewportSize viewWidget viewWidget_update =
     cond (\<lambda>s. m_viewSize (viewWidget s) \<noteq> m_viewGlSize (viewWidget s)
                \<and> width (m_viewSize (viewWidget s)) > 0
                \<and> height (m_viewSize (viewWidget s)) > 0)
       (seq [glCallsOf (\<lambda>s. [Viewport (width (m_viewSize (viewWidget s)))
                                       (height (m_viewSize (viewWidget s)))]),
             viewWidget_update (\<lambda>w. w\<lparr>m_viewGlSize := m_viewSize w\<rparr>)])"

text \<open>
  The blocks of \<open>Renderer::execImageDraw\<close>, in the order of the source.
  \<open>resolveImageExtrema\<close> is the block guarded by \<open>m_imageExtremaFuture.valid()\<close>: it
  takes the result of the future, which makes the future invalid, and emits
  \<open>newImageExtrema\<close>. \<open>highlightCoord p n\<close> is one component of the wanted highlight
  coordinate, \<open>-(p / n) + 1\<close> in floats, where a division by zero gives an infinity or,
  for 0 / 0, NaN. \<open>uploadHighlightCoord\<close> uploads the wanted highlight coordinate
  if it is \<open>!=\<close> the cached one and binds the buffer. \<open>uploadGtpMin\<close>,
  \<open>uploadGtpMax\<close> and \<open>uploadGtpGamma\<close> are the three uniform uploads, each guarded by
  \<open>!=\<close> between the new value and the cached one.
  \<open>readHighlightCoord\<close> reads the actual highlight coordinate back after the draw.
\<close>

definition resolveImageExtrema :: "System \<Rightarrow> System" where
  "resolveImageExtrema s =
     (case m_imageExtremaFuture s of
        Some imageData \<Rightarrow>
          s\<lparr>m_imageExtrema := findImageExtrema imageData,
            m_imageExtremaFuture := None,
            emitted := emitted s @
              [NewImageExtrema (fst (findImageExtrema imageData))
                               (snd (findImageExtrema imageData))]\<rparr>
      | None \<Rightarrow> s)"

definition highlightCoord :: "int \<Rightarrow> int \<Rightarrow> GLfloat" where
  "highlightCoord p n =
     (if n = 0 then (if p = 0 then NaN else if 0 < p then NegInf else PosInf)
      else Finite (1 - real_of_int p / real_of_int n))"

definition uploadHighlightCoord :: "int \<times> int \<Rightarrow> System \<Rightarrow> System" where
  "uploadHighlightCoord pointerImagePixelCoord =
     reading (\<lambda>s. (highlightCoord (fst pointerImagePixelCoord) (width (m_imageSize s)),
                    highlightCoord (snd pointerImagePixelCoord) (height (m_imageSize s))))
       (\<lambda>wanted.
          seq [cond (\<lambda>s. vec2_ne wanted (wantedHighlightCoord (m_imageDrawProg s)))
                 (seq [glCallsOf (\<lambda>s.
                         [BindBuffer GL_SHADER_STORAGE_BUFFER (highlightCoordsBuff (m_imageDrawProg s)),
                          BufferSubDataFloat [fst wanted, snd wanted]]),
                       m_imageDrawProg_update (\<lambda>prog. prog\<lparr>wantedHighlightCoord := wanted\<rparr>)]),
               glCallsOf (\<lambda>s.
                 [BindBuffer GL_SHADER_STORAGE_BUFFER 0,
                  BindBufferBase ImageDraw_highlightCoordsLoc
                    (highlightCoordsBuff (m_imageDrawProg s))])])"

definition uploadGtpMin :: "GLushort \<Rightarrow> System \<Rightarrow> System" where
  "uploadGtpMin gtpMin' =
     cond (\<lambda>s. float_ne (GLfloat_of_GLushort gtpMin') (gtpMin (m_imageDrawProg s)))
       (seq [glCalls [Uniform1f ImageDraw_gtpMinLoc (GLfloat_of_GLushort gtpMin')],
             m_imageDrawProg_update (\<lambda>prog. prog\<lparr>gtpMin := GLfloat_of_GLushort gtpMin'\<rparr>)])"

definition uploadGtpMax :: "GLushort \<Rightarrow> System \<Rightarrow> System" where
  "uploadGtpMax gtpMax' =
     cond (\<lambda>s. float_ne (GLfloat_of_GLushort gtpMax') (gtpMax (m_imageDrawProg s)))
       (seq [glCalls [Uniform1f ImageDraw_gtpMaxLoc (GLfloat_of_GLushort gtpMax')],
             m_imageDrawProg_update (\<lambda>prog. prog\<lparr>gtpMax := GLfloat_of_GLushort gtpMax'\<rparr>)])"

definition uploadGtpGamma :: "GLfloat \<Rightarrow> System \<Rightarrow> System" where
  "uploadGtpGamma gtpGamma' =
     cond (\<lambda>s. float_ne gtpGamma' (gtpGamma (m_imageDrawProg s)))
       (seq [glCalls [Uniform1f ImageDraw_gtpGammaLoc gtpGamma'],
             m_imageDrawProg_update (\<lambda>prog. prog\<lparr>gtpGamma := gtpGamma'\<rparr>)])"

definition readHighlightCoord :: "Gpu \<Rightarrow> System \<Rightarrow> System" where
  "readHighlightCoord gpu =
     seq [glCallsOf (\<lambda>s.
            [MemoryBarrier BufferUpdateBarrier,
             BindBuffer GL_SHADER_STORAGE_BUFFER (highlightCoordsBuff (m_imageDrawProg s)),
             GetBufferSubData 8 8]),
          m_imageDrawProg_update
            (\<lambda>prog. prog\<lparr>actualHighlightCoord := gpu_actualHighlightCoord gpu\<rparr>)]"

text \<open>
  \<open>selectColorer\<close> chooses one of the four subroutines; \<open>drawQuad\<close> draws the textured
  quad. \<open>drawWithRange\<close> is the part of the loaded-image branch after the locals
  \<open>gtpMin\<close> and \<open>gtpMax\<close> have their final values; \<open>drawLoadedImage\<close> is the whole
  branch \<open>if(!m_imageData.empty())\<close>, which reads the widgets and, with the automatic
  range enabled, resolves the future and takes \<open>gtpMin\<close> and \<open>gtpMax\<close> from
  \<open>m_imageExtrema\<close>.
\<close>

definition selectColorer :: "ImageWidget \<Rightarrow> HistogramWidget \<Rightarrow> System \<Rightarrow> System" where
  "selectColorer imageWidget histogramWidget =
     condElse (\<lambda>s. m_highlightPointer imageWidget \<and> m_pointerIsOnImagePixel imageWidget)
       (seq [uploadHighlightCoord (m_pointerImagePixelCoord imageWidget),
             glCalls [UniformSubroutinesuiv
                        (if m_gtpEnabled histogramWidget
                         then imagePanelGammaTransformColorerHighlightIdx
                         else imagePanelPassthroughColorerHighlightIdx)]])
       (glCalls [UniformSubroutinesuiv
                   (if m_gtpEnabled histogramWidget
                    then imagePanelGammaTransformColorerIdx
                    else imagePanelPassthroughColorerIdx)])"

definition drawQuad :: "System \<Rightarrow> System" where
  "drawQuad =
     glCallsOf (\<lambda>s.
       [BindVertexArray (quadVao (m_imageDrawProg s)),
        BindTexture GL_TEXTURE_2D (m_image s),
        DrawArrays GL_TRIANGLE_FAN 4])"

definition drawWithRange ::
    "Gpu \<Rightarrow> ImageWidget \<Rightarrow> HistogramWidget \<Rightarrow> GLushort \<times> GLushort \<Rightarrow> System \<Rightarrow> System" where
  "drawWithRange gpu imageWidget histogramWidget gtpMinMax =
     seq [selectColorer imageWidget histogramWidget,
          m_imageDrawProg_update (\<lambda>prog. prog\<lparr>gtpEnabled := m_gtpEnabled histogramWidget\<rparr>),
          uploadGtpMin (fst gtpMinMax),
          uploadGtpMax (snd gtpMinMax),
          uploadGtpGamma (m_gtpGamma histogramWidget),
          drawQuad,
          cond (\<lambda>s. m_highlightPointer imageWidget \<and> m_pointerIsOnImagePixel imageWidget)
            (readHighlightCoord gpu)]"

definition drawLoadedImage :: "Gpu \<Rightarrow> System \<Rightarrow> System" where
  "drawLoadedImage gpu =
     reading m_imageWidget (\<lambda>imageWidget.
       seq [glCalls [UniformMatrix4fv ImageDraw_projectionModelViewMatrixLoc],
            reading m_histogramWidget (\<lambda>histogramWidget.
              seq [cond (\<lambda>s. m_gtpAutoMinMaxEnabled histogramWidget) resolveImageExtrema,
                   reading (\<lambda>s. if m_gtpAutoMinMaxEnabled histogramWidget then m_imageExtrema s
                                 else (m_gtpMin histogramWidget, m_gtpMax histogramWidget))
                     (drawWithRange gpu imageWidget histogramWidget)])])"

definition execImageDraw :: "Gpu \<Rightarrow> System \<Rightarrow> System" where
  "execImageDraw gpu =
     seq [glCalls [MakeCurrent ImageView, UseProgram ImageDrawProgId],
          updateGlViewportSize m_imageWidget m_imageWidget_update,
          glCalls [ClearColor, ClearDepth, Clear],
          cond (\<lambda>s. m_imageData s \<noteq> []) (drawLoadedImage gpu),
          glCalls [SwapBuffers ImageView]]"

text \<open>
  \<open>Renderer::execHistoDraw\<close> with its blocks: the guarded upload of gammaGamma, the lazily
  built point geometry (one float per bin index) and the loaded-image branch.
\<close>

definition buildPointVao :: "System \<Rightarrow> System" where
  "buildPointVao =
     seq [glGenVertexArrays
            (\<lambda>n. m_histoDrawProg_update (\<lambda>prog. prog\<lparr>pointVao := n\<rparr>)),
          glCallsOf (\<lambda>s. [BindVertexArray (pointVao (m_histoDrawProg s))]),
          glGenBuffers
            (\<lambda>n. m_histoDrawProg_update (\<lambda>prog. prog\<lparr>pointVaoBuff := n\<rparr>)),
          glCallsOf (\<lambda>s.
            [BindBuffer GL_ARRAY_BUFFER (pointVaoBuff (m_histoDrawProg s)),
             BufferData (map (\<lambda>i. Finite (real i)) [0 ..< unat (m_histogramBinCount s)]),
             EnableVertexAttribArray HistoDraw_binIndexLoc,
             VertexAttribPointer HistoDraw_binIndexLoc,
             BindBuffer GL_ARRAY_BUFFER 0])]"

definition uploadGammaGamma :: "GLfloat \<Rightarrow> System \<Rightarrow> System" where
  "uploadGammaGamma gammaGamma' =
     cond (\<lambda>s. float_ne gammaGamma' (gammaGamma (m_histoDrawProg s)))
       (seq [glCalls [Uniform1f HistoDraw_gammaGammaLoc gammaGamma'],
             m_histoDrawProg_update (\<lambda>prog. prog\<lparr>gammaGamma := gammaGamma'\<rparr>)])"

definition drawLoadedHistogram :: "System \<Rightarrow> System" where
  "drawLoadedHistogram =
     seq [reading (\<lambda>s. m_gtpGammaGamma (m_histogramWidget s)) uploadGammaGamma,
          glCallsOf (\<lambda>s.
            [Uniform1ui HistoDraw_binCountLoc (m_histogramBinCount s),
             Uniform1f HistoDraw_binScaleLoc
               (GLfloat_of_GLuint (snd (extrema (m_histoConsolidateProg s)))),
             UniformMatrix4fv HistoDraw_projectionModelViewMatrixLoc]),
          condElse (\<lambda>s. pointVao (m_histoDrawProg s) = GLuint_max)
            buildPointVao
            (glCallsOf (\<lambda>s. [BindVertexArray (pointVao (m_histoDrawProg s))])),
          glCallsOf (\<lambda>s.
            [BindTexture GL_TEXTURE_1D 0,
             BindImageTexture HistoDraw_histogramLoc (m_histogram s) True GL_READ_ONLY,
             DrawArrays GL_LINE_STRIP (m_histogramBinCount s),
             PointSize,
             DrawArrays GL_POINTS (m_histogramBinCount s)])]"

definition execHistoDraw :: "System \<Rightarrow> System" where
  "execHistoDraw =
     seq [glCalls [MakeCurrent HistogramView, UseProgram HistoDrawProgId],
          updateGlViewportSize m_histogramWidget m_histogramWidget_update,
          glCalls [ClearColor, ClearDepth, Clear],
          cond (\<lambda>s. m_imageData s \<noteq> []) drawLoadedHistogram,
          glCalls [SwapBuffers HistogramView]]"

section \<open>Slots run on the renderer thread\<close>

text \<open>
  \<open>Renderer::threadInitSlot\<close> and \<open>Renderer::updateViewSlot\<close>.
\<close>

definition threadInitSlot :: "InitEnv \<Rightarrow> System \<Rightarrow> RisWidgetException option \<times> System" where
  "threadInitSlot env s =
     (if m_threadInited s then (Some ThreadInitCalledTwice, s)
      else
        (case makeContexts env (s\<lparr>m_threadInited := True\<rparr>) of
           (Some e, s) \<Rightarrow> (Some e, s)
         | (None, s) \<Rightarrow>
             (case makeGlfs env s of
                (Some e, s) \<Rightarrow> (Some e, s)
              | (None, s) \<Rightarrow> (None, buildGlProgs s))))"

definition updateViewSlot :: "Gpu \<Rightarrow> View \<Rightarrow> System \<Rightarrow> System" where
  "updateViewSlot gpu view =
     (case view of
        ImageView \<Rightarrow>
          cond m_imageViewUpdatePending
            (seq [\<lambda>s. s\<lparr>m_imageViewUpdatePending := False\<rparr>, execImageDraw gpu])
      | HistogramView \<Rightarrow>
          cond m_histogramViewUpdatePending
            (seq [\<lambda>s. s\<lparr>m_histogramViewUpdatePending := False\<rparr>, execHistoDraw])
      | OtherView n \<Rightarrow> seq [])"

text \<open>
  \<open>Renderer::newImageSlot\<close> in two parts followed by the two draws: the first part makes
  the image view current and releases the old textures under the guard of the source; the
  second part is the branch \<open>if(!imageData.empty())\<close>.
\<close>

definition newImageSlot_teardown :: "ImageData \<Rightarrow> QSize \<Rightarrow> System \<Rightarrow> System" where
  "newImageSlot_teardown imageData imageSize =
     seq [glCalls [MakeCurrent ImageView],
          cond (\<lambda>s. m_imageData s \<noteq> [] \<and> (imageData = [] \<or> m_imageSize s \<noteq> imageSize))
            (seq [delImage, delHistogramBlocks])]"

definition newImageSlot_upload :: "Gpu \<Rightarrow> ImageData \<Rightarrow> QSize \<Rightarrow> bool \<Rightarrow> System \<Rightarrow> System" where
  "newImageSlot_upload gpu imageData imageSize filter' =
     cond (\<lambda>s. imageData \<noteq> [])
       (seq [\<lambda>s. s\<lparr>m_imageData := imageData\<rparr>,
             \<lambda>s. s\<lparr>m_imageSize := imageSize\<rparr>,
             condElse (\<lambda>s. m_image s = GLuint_max)
               (seq [glGenTextures (\<lambda>n s. s\<lparr>m_image := n\<rparr>),
                     glCallsOf (\<lambda>s.
                       [BindTexture GL_TEXTURE_2D (m_image s),
                        TexStorage2D (width (m_imageSize s)) (height (m_imageSize s)),
                        TexParameteri GL_TEXTURE_WRAP_S GL_CLAMP_TO_EDGE,
                        TexParameteri GL_TEXTURE_WRAP_T GL_CLAMP_TO_EDGE])])
               (glCallsOf (\<lambda>s. [BindTexture GL_TEXTURE_2D (m_image s)])),
             glCallsOf (\<lambda>s.
               [TexSubImage2D (width (m_imageSize s)) (height (m_imageSize s)) (m_imageData s),
                TexParameteri GL_TEXTURE_MIN_FILTER (if filter' then GL_LINEAR else GL_NEAREST),
                TexParameteri GL_TEXTURE_MAG_FILTER (if filter' then GL_LINEAR else GL_NEAREST)]),
             execHistoCalc,
             execHistoConsolidate gpu])"

definition newImageSlot :: "Gpu \<Rightarrow> ImageData \<Rightarrow> QSize \<Rightarrow> bool \<Rightarrow> System \<Rightarrow> System" where
  "newImageSlot gpu imageData imageSize filter' =
     seq [newImageSlot_teardown imageData imageSize,
          newImageSlot_upload gpu imageData imageSize filter',
          execImageDraw gpu,
          execHistoDraw]"

text \<open>
  \<open>Renderer::setHistogramBinCountSlot\<close>: under the guard that the count differs, the first
  part releases the histogram resources and adopts the count; the recomputation follows if
  an image is loaded.
\<close>

definition setHistogramBinCountSlot_teardown :: "GLuint \<Rightarrow> System \<Rightarrow> System" where
  "setHistogramBinCountSlot_teardown histogramBinCount =
     seq [glCalls [MakeCurrent HistogramView],
          delHistogramBlocks,
          delHistogram,
          \<lambda>s. s\<lparr>m_histogramBinCount := histogramBinCount\<rparr>]"

definition setHistogramBinCountSlot :: "Gpu \<Rightarrow> GLuint \<Rightarrow> System \<Rightarrow> System" where
  "setHistogramBinCountSlot gpu histogramBinCount =
     cond (\<lambda>s. histogramBinCount \<noteq> m_histogramBinCount s)
       (seq [setHistogramBinCountSlot_teardown histogramBinCount,
             cond (\<lambda>s. m_imageData s \<noteq> [])
               (seq [execHistoCalc, execHistoConsolidate gpu, execHistoDraw])])"

section \<open>The system as a transition system\<close>

text \<open>
  The queued connections made in the constructor: each message runs its slot.
\<close>

fun deliver :: "Gpu \<Rightarrow> Message \<Rightarrow> System \<Rightarrow> System" where
  "deliver gpu (UpdateViewMsg view) = updateViewSlot gpu view"
| "deliver gpu (NewImageMsg imageData imageSize filter') =
     newImageSlot gpu imageData imageSize filter'"
| "deliver gpu (SetHistogramBinCountMsg histogramBinCount) =
     setHistogramBinCountSlot gpu histogramBinCount"

text \<open>
  An event is a call from the caller thread, thread initialisation, the delivery of the
  first queued message on the renderer thread, or the user interface writing the widgets.
  Messages are delivered in order, and only once \<open>threadInitSlot\<close> has returned normally
  (the slots call through \<open>m_glfs\<close>, which it sets). \<open>step\<close> returns the exception, if
  one is thrown, and the state after the event; \<open>run\<close> applies a list of events.
\<close>

datatype Event =
    CallUpdateView View
  | CallShowImage ImageData QSize bool
  | CallSetHistogramBinCount GLuint
  | ThreadInit InitEnv
  | Deliver Gpu
  | WidgetInput ImageWidget HistogramWidget

fun step :: "Event \<Rightarrow> System \<Rightarrow> RisWidgetException option \<times> System" where
  "step (CallUpdateView view) s = updateView view s"
| "step (CallShowImage imageData imageSize filter') s = showImage imageData imageSize filter' s"
| "step (CallSetHistogramBinCount histogramBinCount) s =
     (None, setHistogramBinCount histogramBinCount s)"
| "step (ThreadInit env) s =
     (case threadInitSlot env s of
        (None, s) \<Rightarrow> (None, s\<lparr>eventLoop := True\<rparr>)
      | (Some e, s) \<Rightarrow> (Some e, s))"
| "step (Deliver gpu) s =
     (None,
      if eventLoop s then
        (case queue s of
           [] \<Rightarrow> s
         | m # ms \<Rightarrow> deliver gpu m (s\<lparr>queue := ms\<rparr>))
      else s)"
| "step (WidgetInput imageWidget histogramWidget) s =
     (None, s\<lparr>m_imageWidget := imageWidget, m_histogramWidget := histogramWidget\<rparr>)"

fun run :: "Event list \<Rightarrow> System \<Rightarrow> System" where
  "run [] s = s"
| "run (e # es) s = run es (snd (step e s))"

text \<open>
  The constructor \<open>Renderer::Renderer\<close>. The program objects and the widgets are made by
  code that is not under src: they are parameters. The names the program objects hold for
  their buffers and vertex array count as in use from the start.
\<close>

record Collaborators =
  histoCalcProg0 :: HistoCalcProg
  histoConsolidateProg0 :: HistoConsolidateProg
  imageDrawProg0 :: ImageDrawProg
  histoDrawProg0 :: HistoDrawProg
  imageWidget0 :: ImageWidget
  histogramWidget0 :: HistogramWidget

definition newRenderer :: "Collaborators \<Rightarrow> System" where
  "newRenderer c =
     \<lparr>m_threadInited = False,
      m_imageViewUpdatePending = False,
      m_histogramViewUpdatePending = False,
      m_glfs = False,
      m_histoCalcProg = histoCalcProg0 c,
      m_histoConsolidateProg = histoConsolidateProg0 c,
      m_imageDrawProg = imageDrawProg0 c,
      m_histoDrawProg = histoDrawProg0 c,
      m_image = GLuint_max,
      m_imageData = [],
      m_imageSize = \<lparr>width = 0, height = 0\<rparr>,
      m_imageExtremaFuture = None,
      m_imageExtrema = (0, 0),
      m_histogramBinCount = 2048,
      m_histogramBlocks = GLuint_max,
      m_histogram = GLuint_max,
      m_histogramData = replicate 2048 0,
      m_imageView_context = False,
      m_histogramView_context = False,
      m_imageWidget = imageWidget0 c,
      m_histogramWidget = histogramWidget0 c,
      queue = [],
      emitted = [],
      eventLoop = False,
      glLog = [],
      glTextures = [],
      glVertexArrays = [quadVao (imageDrawProg0 c)],
      glBuffers = [extremaBuff (histoConsolidateProg0 c), highlightCoordsBuff (imageDrawProg0 c)]\<rparr>"

text \<open>
  The states the system can be in: those reached from a new renderer by events.
\<close>

inductive reachable :: "Collaborators \<Rightarrow> System \<Rightarrow> bool" for c :: Collaborators where
  reachable_init: "reachable c (newRenderer c)"
| reachable_step: "reachable c s \<Longrightarrow> reachable c (snd (step e s))"

section \<open>Auxiliary definitions for the proofs\<close>

text \<open>
  Concrete collaborators for the examples: program objects with an unallocated point
  geometry and a cached gamma of 0, widgets with the automatic range enabled and gamma 1,
  an environment in which thread initialisation succeeds, and a GPU that reads back zeros.
\<close>

definition exampleCollaborators :: Collaborators where
  "exampleCollaborators =
     \<lparr>histoCalcProg0 = \<lparr>wgCountPerAxis = 8, liCountPerAxis = 4\<rparr>,
      histoConsolidateProg0 = \<lparr>liCount = 16, extrema = (0, 0), extremaBuff = 1\<rparr>,
      imageDrawProg0 =
        \<lparr>gtpEnabled = False, gtpMin = Finite 0, gtpMax = Finite 65535, gtpGamma = Finite 0,
         wantedHighlightCoord = (Finite 0, Finite 0), actualHighlightCoord = (Finite 0, Finite 0),
         highlightCoordsBuff = 2, quadVao = 1\<rparr>,
      histoDrawProg0 = \<lparr>gammaGamma = Finite 1, pointVao = GLuint_max, pointVaoBuff = GLuint_max\<rparr>,
      imageWidget0 =
        \<lparr>m_viewSize = \<lparr>width = 640, height = 480\<rparr>,
         m_viewGlSize = \<lparr>width = 0, height = 0\<rparr>,
         m_highlightPointer = False,
         m_pointerIsOnImagePixel = False,
         m_pointerImagePixelCoord = (0, 0)\<rparr>,
      histogramWidget0 =
        \<lparr>m_viewSize = \<lparr>width = 640, height = 200\<rparr>,
         m_viewGlSize = \<lparr>width = 0, height = 0\<rparr>,
         m_gtpEnabled = True,
         m_gtpAutoMinMaxEnabled = True,
         m_gtpMin = 0,
         m_gtpMax = 65535,
         m_gtpGamma = Finite 1,
         m_gtpGammaGamma = Finite 1\<rparr>\<rparr>"

definition exampleInitEnv :: InitEnv where
  "exampleInitEnv =
     \<lparr>imageContextCreates = True, histogramContextCreates = True,
      versionFunctionsFound = True, functionsInitialize = True\<rparr>"

definition exampleGpu :: Gpu where
  "exampleGpu =
     \<lparr>gpu_histogram = (\<lambda>_. 0), gpu_extrema = (0, 0), gpu_actualHighlightCoord = (Finite 0, Finite 0)\<rparr>"

text \<open>
  \<open>preserves I f\<close>: the statement \<open>f\<close> keeps the invariant \<open>I\<close>. \<open>control\<close> collects
  the members the debounce is about, and \<open>debounced\<close> is its invariant: a target has one
  queued draw message if its flag is set and none otherwise.
\<close>

definition preserves :: "('s \<Rightarrow> bool) \<Rightarrow> ('s \<Rightarrow> 's) \<Rightarrow> bool" where
  "preserves I f = (\<forall>s. I s \<longrightarrow> I (f s))"

definition control :: "System \<Rightarrow> Message list \<times> bool \<times> bool" where
  "control s = (queue s, m_imageViewUpdatePending s, m_histogramViewUpdatePending s)"

definition debounced :: "System \<Rightarrow> bool" where
  "debounced s \<longleftrightarrow>
     count_list (queue s) (UpdateViewMsg ImageView) = (if m_imageViewUpdatePending s then 1 else 0) \<and>
     count_list (queue s) (UpdateViewMsg HistogramView) = (if m_histogramViewUpdatePending s then 1 else 0)"

text \<open>
  Example: a redraw of each view has been requested after thread initialisation.
\<close>

definition exampleBothPending :: System where
  "exampleBothPending =
     run [ThreadInit exampleInitEnv, CallUpdateView ImageView, CallUpdateView HistogramView]
       (newRenderer exampleCollaborators)"



text \<open>
  The texture handles seen abstractly: the three handles, the texture names in use and
  whether an image is loaded, with the effect the renderer's functions have on them.
  \<open>namesTracked\<close>: the names in use are distinct and are among the allocated handles.
  \<open>loadedAllocated\<close>: while an image is loaded all three textures are allocated.
\<close>

type_synonym TexState = "GLuint \<times> GLuint \<times> GLuint \<times> GLuint list \<times> bool"

definition texState :: "System \<Rightarrow> TexState" where
  "texState s =
     (m_image s, m_histogramBlocks s, m_histogram s, glTextures s, m_imageData s \<noteq> [])"

fun delImageT :: "TexState \<Rightarrow> TexState" where
  "delImageT (i, b, h, live, loaded) =
     (if i \<noteq> GLuint_max then (GLuint_max, b, h, removeAll i live, False)
      else (i, b, h, live, loaded))"

fun delHistogramBlocksT :: "TexState \<Rightarrow> TexState" where
  "delHistogramBlocksT (i, b, h, live, loaded) =
     (if b \<noteq> GLuint_max then (i, GLuint_max, h, removeAll b live, loaded)
      else (i, b, h, live, loaded))"

fun delHistogramT :: "TexState \<Rightarrow> TexState" where
  "delHistogramT (i, b, h, live, loaded) =
     (if h \<noteq> GLuint_max then (i, b, GLuint_max, removeAll h live, loaded)
      else (i, b, h, live, loaded))"

fun allocImageT :: "TexState \<Rightarrow> TexState" where
  "allocImageT (i, b, h, live, loaded) =
     (if i = GLuint_max then (freshName live, b, h, freshName live # live, loaded)
      else (i, b, h, live, loaded))"

fun allocHistogramBlocksT :: "TexState \<Rightarrow> TexState" where
  "allocHistogramBlocksT (i, b, h, live, loaded) =
     (if b = GLuint_max then (i, freshName live, h, freshName live # live, loaded)
      else (i, b, h, live, loaded))"

fun allocHistogramT :: "TexState \<Rightarrow> TexState" where
  "allocHistogramT (i, b, h, live, loaded) =
     (if h = GLuint_max then (i, b, freshName live, freshName live # live, loaded)
      else (i, b, h, live, loaded))"

fun setLoadedT :: "bool \<Rightarrow> TexState \<Rightarrow> TexState" where
  "setLoadedT l (i, b, h, live, loaded) = (i, b, h, live, l)"

fun namesTracked :: "TexState \<Rightarrow> bool" where
  "namesTracked (i, b, h, live, loaded) \<longleftrightarrow>
     distinct live \<and> set live \<subseteq> {i, b, h} - {GLuint_max}"

fun loadedAllocated :: "TexState \<Rightarrow> bool" where
  "loadedAllocated (i, b, h, live, loaded) \<longleftrightarrow>
     (loaded \<longrightarrow> i \<noteq> GLuint_max \<and> b \<noteq> GLuint_max \<and> h \<noteq> GLuint_max)"

definition texturesTracked :: "System \<Rightarrow> bool" where
  "texturesTracked s \<longleftrightarrow> namesTracked (texState s) \<and> loadedAllocated (texState s)"


text \<open>
  \<open>glSince s t\<close>: the calls logged after state \<open>s\<close> in a later state \<open>t\<close>.
\<close>

definition glSince :: "System \<Rightarrow> System \<Rightarrow> GlCall list" where
  "glSince s t = drop (length (glLog s)) (glLog t)"

definition isDeleteTextures :: "GlCall \<Rightarrow> bool" where
  "isDeleteTextures c = (case c of DeleteTextures h \<Rightarrow> True | _ \<Rightarrow> False)"

text \<open>
  Examples: the 2 x 1 image \<open>[10, 20]\<close> has been shown and delivered; the bin count is
  changed with no image loaded; and an image is shown between two clearing calls that are
  made before the renderer thread delivers anything.
\<close>

definition exampleLoaded :: System where
  "exampleLoaded =
     run [ThreadInit exampleInitEnv,
          CallShowImage [10, 20] \<lparr>width = 2, height = 1\<rparr> False,
          Deliver exampleGpu]
       (newRenderer exampleCollaborators)"

definition exampleEmptyRebinned :: System where
  "exampleEmptyRebinned =
     run [ThreadInit exampleInitEnv, CallSetHistogramBinCount 4, Deliver exampleGpu]
       (newRenderer exampleCollaborators)"

definition exampleStale :: System where
  "exampleStale =
     run [CallShowImage [30, 40] \<lparr>width = 2, height = 1\<rparr> False,
          CallShowImage [] \<lparr>width = 0, height = 0\<rparr> False,
          Deliver exampleGpu,
          Deliver exampleGpu]
       (snd (showImage [] \<lparr>width = 0, height = 0\<rparr> False exampleLoaded))"

text \<open>
  \<open>resolvedFrom before t\<close>: the future and the cached extrema of \<open>t\<close> are those of
  \<open>before\<close>, or the future of \<open>before\<close> has been resolved into the cache.
\<close>

definition extremaState :: "System \<Rightarrow> ImageData option \<times> (GLushort \<times> GLushort)" where
  "extremaState s = (m_imageExtremaFuture s, m_imageExtrema s)"

definition resolvedFrom ::
    "ImageData option \<times> (GLushort \<times> GLushort) \<Rightarrow> System \<Rightarrow> bool" where
  "resolvedFrom before t \<longleftrightarrow>
     extremaState t = before
     \<or> (\<exists>d. fst before = Some d \<and> extremaState t = (None, findImageExtrema d))"

text \<open>
  \<open>uploads loc cs\<close> lists the values that the calls \<open>cs\<close> upload with \<open>glUniform1f\<close>
  to location \<open>loc\<close>. For the three uniforms of the image-draw program, \<open>cachedGtp\<close> is
  the value cached in the program object and \<open>wantedGtp\<close> the new value the next draw
  compares with it: the widget's gamma, and the widget's minimum and maximum or, with the
  automatic range enabled, the image extrema once the pending future (if any) is resolved.
\<close>

definition uniform1fAt :: "Loc \<Rightarrow> GlCall \<Rightarrow> GLfloat option" where
  "uniform1fAt loc c =
     (case c of Uniform1f l v \<Rightarrow> if l = loc then Some v else None | _ \<Rightarrow> None)"

fun uploads :: "Loc \<Rightarrow> GlCall list \<Rightarrow> GLfloat list" where
  "uploads loc [] = []"
| "uploads loc (c # cs) =
     (case uniform1fAt loc c of Some v \<Rightarrow> v # uploads loc cs | None \<Rightarrow> uploads loc cs)"















section \<open>Properties of findImageExtrema\<close>

lemma scanPixels_fst: "fst (scanPixels ret ps) = Min (insert (fst ret) (set ps))"
proof (induction ps arbitrary: ret)
  case Nil
  then show ?case by simp
next
  case (Cons p ps)
  obtain mn mx where r: "ret = (mn, mx)" by (cases ret)
  have "Min (insert (min mn p) (set ps)) = Min (insert mn (insert p (set ps)))"
    by (cases "ps = []") (simp_all add: min.assoc)
  then show ?case
    by (auto simp add: Cons.IH r min_def not_less)
qed

lemma findImageExtrema_descending_pair: "findImageExtrema [5, 3] = (3, 0)"
  by (simp add: findImageExtrema_def)

text \<open>
  C2. There is an image of at least two samples whose reported maximum is strictly below
  its true maximum: in \<open>[5, 3]\<close> each sample lowers the running minimum, so the else-if
  never compares either of them with the running maximum, which stays at its start value 0.
\<close>

theorem findImageExtrema_max_undercount:
  "\<exists>imageData. 2 \<le> length imageData \<and>
     snd (findImageExtrema imageData) < Max (set imageData)"
  by (rule exI [of _ "[5, 3]"]) (simp add: findImageExtrema_def)

text \<open>
  C8. \<open>findImageExtrema\<close> of \<open>[5]\<close> is \<open>(5, 5)\<close>, of \<open>[3, 1, 4, 1, 5]\<close> is \<open>(1, 5)\<close>, and
  every image of exactly one sample \<open>p\<close> gives \<open>(p, p)\<close>.
\<close>

theorem findImageExtrema_examples:
  "findImageExtrema [5] = (5, 5) \<and>
   findImageExtrema [3, 1, 4, 1, 5] = (1, 5) \<and>
   (\<forall>imageData. length imageData = 1 \<longrightarrow>
      findImageExtrema imageData = (imageData ! 0, imageData ! 0))"
  by (simp add: findImageExtrema_def)

theorem findImageExtrema_examples_witness:
  "length [7 :: GLushort] = 1 \<and> findImageExtrema [7] = ([7] ! 0, [7] ! 0)"
proof -
  have h: "length [7 :: GLushort] = 1" by simp
  from findImageExtrema_examples
  have "\<forall>imageData. length imageData = 1 \<longrightarrow>
          findImageExtrema imageData = (imageData ! 0, imageData ! 0)"
    by blast
  then have "findImageExtrema [7] = ([7] ! 0, [7] ! 0)" using h by blast
  with h show ?thesis by blast
qed

text \<open>
  C10. For every non-empty image the first component returned by \<open>findImageExtrema\<close> is
  the true minimum of the samples.
\<close>

theorem findImageExtrema_min_exact:
  "imageData \<noteq> [] \<Longrightarrow> fst (findImageExtrema imageData) = Min (set imageData)"
proof (cases "length imageData = 1")
  case True
  then obtain p where "imageData = [p]" by (cases imageData) auto
  then show ?thesis by (simp add: findImageExtrema_def)
next
  case False
  assume ne: "imageData \<noteq> []"
  have m: "(65535 :: GLushort) = - 1" by simp
  have "Min (set imageData) \<le> (65535 :: GLushort)"
    unfolding m by (rule word_n1_ge)
  then have "Min (insert 65535 (set imageData)) = Min (set imageData)"
    using ne by (simp add: min_absorb2)
  with False show ?thesis by (simp add: findImageExtrema_def scanPixels_fst)
qed

theorem findImageExtrema_min_exact_witness:
  "[3, 1, 4 :: GLushort] \<noteq> [] \<and> fst (findImageExtrema [3, 1, 4]) = Min (set [3, 1, 4])"
proof -
  have h: "[3, 1, 4 :: GLushort] \<noteq> []" by simp
  show ?thesis using h findImageExtrema_min_exact [OF h] by blast
qed

section \<open>Properties of the renderer\<close>

lemma preservesD: "preserves I f \<Longrightarrow> I s \<Longrightarrow> I (f s)"
  by (simp add: preserves_def)

lemma preserves_seq_Nil: "preserves I (seq [])"
  by (simp add: preserves_def seq_def)

lemma preserves_seq_Cons: "preserves I f \<Longrightarrow> preserves I (seq fs) \<Longrightarrow> preserves I (seq (f # fs))"
  by (simp add: preserves_def seq_def)

lemma preserves_cond: "preserves I f \<Longrightarrow> preserves I (cond c f)"
  by (simp add: preserves_def cond_def)

lemma preserves_condElse: "preserves I f \<Longrightarrow> preserves I g \<Longrightarrow> preserves I (condElse c f g)"
  by (simp add: preserves_def condElse_def)

lemma preserves_reading: "(\<And>v. preserves I (body v)) \<Longrightarrow> preserves I (reading rd body)"
  by (simp add: preserves_def reading_def)

lemmas preserves_intros =
  preserves_seq_Nil preserves_seq_Cons preserves_cond preserves_condElse preserves_reading

lemmas block_defs =
  delImage_def delHistogramBlocks_def delHistogram_def execHistoCalc_def
  execHistoConsolidate_def execHistoConsolidate_setup_def execHistoConsolidate_execute_def
  execHistoConsolidate_retrieve_def updateGlViewportSize_def uploadHighlightCoord_def
  uploadGtpMin_def uploadGtpMax_def uploadGtpGamma_def readHighlightCoord_def
  selectColorer_def drawQuad_def drawWithRange_def
  drawLoadedImage_def execImageDraw_def buildPointVao_def uploadGammaGamma_def
  drawLoadedHistogram_def execHistoDraw_def newImageSlot_teardown_def newImageSlot_upload_def
  newImageSlot_def setHistogramBinCountSlot_teardown_def setHistogramBinCountSlot_def

lemmas leaf_defs =
  glCalls_def glCallsOf_def glGenTextures_def glDeleteTextures_def glGenVertexArrays_def
  glDeleteVertexArrays_def glGenBuffers_def glDeleteBuffers_def resolveImageExtrema_def

lemma seq_Nil [simp]: "seq [] s = s"
  by (simp add: seq_def)

lemma seq_Cons [simp]: "seq (f # fs) s = seq fs (f s)"
  by (simp add: seq_def)

subsection \<open>Control state\<close>

lemma execImageDraw_control: "control (execImageDraw gpu s) = control s"
proof -
  have "preserves (\<lambda>t. control t = control s) (execImageDraw gpu)"
    unfolding block_defs
    by (intro preserves_intros)
       (simp_all add: preserves_def leaf_defs control_def Let_def split: option.splits)
  then show ?thesis by (simp add: preserves_def)
qed

lemma execHistoDraw_control: "control (execHistoDraw s) = control s"
proof -
  have "preserves (\<lambda>t. control t = control s) execHistoDraw"
    unfolding block_defs
    by (intro preserves_intros)
       (simp_all add: preserves_def leaf_defs control_def Let_def split: option.splits)
  then show ?thesis by (simp add: preserves_def)
qed

lemma newImageSlot_control: "control (newImageSlot gpu d sz f s) = control s"
proof -
  have "preserves (\<lambda>t. control t = control s) (newImageSlot gpu d sz f)"
    unfolding block_defs
    by (intro preserves_intros)
       (simp_all add: preserves_def leaf_defs control_def Let_def split: option.splits)
  then show ?thesis by (simp add: preserves_def)
qed

lemma setHistogramBinCountSlot_control: "control (setHistogramBinCountSlot gpu b s) = control s"
proof -
  have "preserves (\<lambda>t. control t = control s) (setHistogramBinCountSlot gpu b)"
    unfolding block_defs
    by (intro preserves_intros)
       (simp_all add: preserves_def leaf_defs control_def Let_def split: option.splits)
  then show ?thesis by (simp add: preserves_def)
qed

lemma threadInitSlot_control: "control (snd (threadInitSlot env s)) = control s"
  by (simp add: threadInitSlot_def makeContexts_def makeGlfs_def buildGlProgs_def glCalls_def
      control_def Let_def)

lemma updateViewSlot_Image:
  "updateViewSlot gpu ImageView s =
     (if m_imageViewUpdatePending s
      then execImageDraw gpu (s\<lparr>m_imageViewUpdatePending := False\<rparr>) else s)"
  by (simp add: updateViewSlot_def cond_def)

lemma updateViewSlot_Histogram:
  "updateViewSlot gpu HistogramView s =
     (if m_histogramViewUpdatePending s
      then execHistoDraw (s\<lparr>m_histogramViewUpdatePending := False\<rparr>) else s)"
  by (simp add: updateViewSlot_def cond_def)

lemma updateViewSlot_Other: "updateViewSlot gpu (OtherView n) s = s"
  by (simp add: updateViewSlot_def)

lemma control_queue: "control t = control s \<Longrightarrow> queue t = queue s"
  and control_imagePending:
    "control t = control s \<Longrightarrow> m_imageViewUpdatePending t = m_imageViewUpdatePending s"
  and control_histogramPending:
    "control t = control s \<Longrightarrow> m_histogramViewUpdatePending t = m_histogramViewUpdatePending s"
  by (simp_all add: control_def)

lemma debounced_control: "control t = control s \<Longrightarrow> debounced t = debounced s"
  by (simp add: debounced_def control_def)

lemma deliver_control:
  "control (deliver gpu m s) =
     (case m of
        UpdateViewMsg ImageView \<Rightarrow> (queue s, False, m_histogramViewUpdatePending s)
      | UpdateViewMsg HistogramView \<Rightarrow> (queue s, m_imageViewUpdatePending s, False)
      | _ \<Rightarrow> control s)"
proof (cases m)
  case (UpdateViewMsg v)
  show ?thesis
  proof (cases v)
    case ImageView
    have "control (execImageDraw gpu (s\<lparr>m_imageViewUpdatePending := False\<rparr>))
            = (queue s, False, m_histogramViewUpdatePending s)"
      by (simp add: execImageDraw_control) (simp add: control_def)
    then show ?thesis
      using UpdateViewMsg ImageView by (simp add: updateViewSlot_Image) (simp add: control_def)
  next
    case HistogramView
    have "control (execHistoDraw (s\<lparr>m_histogramViewUpdatePending := False\<rparr>))
            = (queue s, m_imageViewUpdatePending s, False)"
      by (simp add: execHistoDraw_control) (simp add: control_def)
    then show ?thesis
      using UpdateViewMsg HistogramView
      by (simp add: updateViewSlot_Histogram) (simp add: control_def)
  next
    case (OtherView n)
    then show ?thesis using UpdateViewMsg by (simp add: updateViewSlot_Other)
  qed
next
  case (NewImageMsg d sz f)
  then show ?thesis by (simp add: newImageSlot_control)
next
  case (SetHistogramBinCountMsg b)
  then show ?thesis by (simp add: setHistogramBinCountSlot_control)
qed

lemma step_debounced: "debounced s \<Longrightarrow> debounced (snd (step e s))"
proof (cases e)
  case (CallUpdateView v)
  assume "debounced s"
  then show ?thesis using CallUpdateView
    by (cases v) (auto simp add: updateView_def debounced_def)
next
  case (CallShowImage d sz f)
  assume "debounced s"
  then show ?thesis using CallShowImage
    by (auto simp add: showImage_def debounced_def)
next
  case (CallSetHistogramBinCount b)
  assume "debounced s"
  then show ?thesis using CallSetHistogramBinCount
    by (auto simp add: setHistogramBinCount_def debounced_def)
next
  case (ThreadInit env)
  assume d: "debounced s"
  have "control (snd (step (ThreadInit env) s)) = control (snd (threadInitSlot env s))"
    by (cases "threadInitSlot env s") (auto simp add: control_def split: option.splits)
  then have "control (snd (step (ThreadInit env) s)) = control s"
    by (simp add: threadInitSlot_control)
  from debounced_control [OF this] show ?thesis using d ThreadInit by simp
next
  case (Deliver gpu)
  assume d: "debounced s"
  show ?thesis
  proof (cases "eventLoop s \<and> queue s \<noteq> []")
    case False
    then show ?thesis using d Deliver by (auto split: list.splits)
  next
    case True
    then obtain m ms where q: "queue s = m # ms" by (cases "queue s") auto
    let ?t = "deliver gpu m (s\<lparr>queue := ms\<rparr>)"
    have st: "snd (step e s) = ?t" using True q Deliver by simp
    have c: "control ?t =
       (case m of
          UpdateViewMsg ImageView \<Rightarrow> (ms, False, m_histogramViewUpdatePending s)
        | UpdateViewMsg HistogramView \<Rightarrow> (ms, m_imageViewUpdatePending s, False)
        | _ \<Rightarrow> (ms, m_imageViewUpdatePending s, m_histogramViewUpdatePending s))"
      by (cases m; cases "case m of UpdateViewMsg v \<Rightarrow> v | _ \<Rightarrow> ImageView")
         (simp_all add: deliver_control del: deliver.simps, simp_all add: control_def)
    show ?thesis
      unfolding st using d q c
      by (auto simp add: debounced_def control_def split: Message.splits View.splits if_splits)
  qed
next
  case (WidgetInput iw hw)
  assume "debounced s"
  then show ?thesis using WidgetInput by (simp add: debounced_def)
qed

lemma reachable_debounced: "reachable c s \<Longrightarrow> debounced s"
proof (induction rule: reachable.induct)
  case reachable_init
  show ?case by (simp add: debounced_def newRenderer_def)
next
  case (reachable_step s e)
  then show ?case by (simp add: step_debounced)
qed

lemma reachable_run: "reachable c s \<Longrightarrow> reachable c (run evs s)"
  by (induction evs arbitrary: s) (auto intro: reachable_step)

lemma step_imagePending:
  "m_imageViewUpdatePending (snd (step e s)) \<Longrightarrow>
     m_imageViewUpdatePending s \<or> (e = CallUpdateView ImageView \<and> m_imageView_context s)"
proof (cases e)
  case (CallUpdateView v)
  assume "m_imageViewUpdatePending (snd (step e s))"
  then show ?thesis using CallUpdateView
    by (cases v) (auto simp add: updateView_def split: if_splits)
next
  case (CallShowImage d sz f)
  assume "m_imageViewUpdatePending (snd (step e s))"
  then show ?thesis using CallShowImage by (auto simp add: showImage_def split: if_splits)
next
  case (CallSetHistogramBinCount b)
  assume "m_imageViewUpdatePending (snd (step e s))"
  then show ?thesis using CallSetHistogramBinCount by (simp add: setHistogramBinCount_def)
next
  case (ThreadInit env)
  assume a: "m_imageViewUpdatePending (snd (step e s))"
  have "control (snd (step (ThreadInit env) s)) = control (snd (threadInitSlot env s))"
    by (cases "threadInitSlot env s") (auto simp add: control_def split: option.splits)
  then have "control (snd (step (ThreadInit env) s)) = control s"
    by (simp add: threadInitSlot_control)
  from control_imagePending [OF this] show ?thesis using a ThreadInit by simp
next
  case (Deliver gpu)
  assume a: "m_imageViewUpdatePending (snd (step e s))"
  show ?thesis
  proof (cases "eventLoop s \<and> queue s \<noteq> []")
    case False
    then show ?thesis using a Deliver by (auto split: list.splits)
  next
    case True
    then obtain m ms where q: "queue s = m # ms" by (cases "queue s") auto
    have "m_imageViewUpdatePending (deliver gpu m (s\<lparr>queue := ms\<rparr>))"
      using a True q Deliver by simp
    then have "fst (snd (control (deliver gpu m (s\<lparr>queue := ms\<rparr>))))"
      by (simp add: control_def)
    then show ?thesis
      unfolding deliver_control
      by (auto simp add: control_def split: Message.split_asm View.split_asm)
  qed
next
  case (WidgetInput iw hw)
  assume "m_imageViewUpdatePending (snd (step e s))"
  then show ?thesis using WidgetInput by simp
qed

lemma step_histogramPending:
  "m_histogramViewUpdatePending (snd (step e s)) \<Longrightarrow>
     m_histogramViewUpdatePending s \<or> (e = CallUpdateView HistogramView \<and> m_histogramView_context s)"
proof (cases e)
  case (CallUpdateView v)
  assume "m_histogramViewUpdatePending (snd (step e s))"
  then show ?thesis using CallUpdateView
    by (cases v) (auto simp add: updateView_def split: if_splits)
next
  case (CallShowImage d sz f)
  assume "m_histogramViewUpdatePending (snd (step e s))"
  then show ?thesis using CallShowImage by (auto simp add: showImage_def split: if_splits)
next
  case (CallSetHistogramBinCount b)
  assume "m_histogramViewUpdatePending (snd (step e s))"
  then show ?thesis using CallSetHistogramBinCount by (simp add: setHistogramBinCount_def)
next
  case (ThreadInit env)
  assume a: "m_histogramViewUpdatePending (snd (step e s))"
  have "control (snd (step (ThreadInit env) s)) = control (snd (threadInitSlot env s))"
    by (cases "threadInitSlot env s") (auto simp add: control_def split: option.splits)
  then have "control (snd (step (ThreadInit env) s)) = control s"
    by (simp add: threadInitSlot_control)
  from control_histogramPending [OF this] show ?thesis using a ThreadInit by simp
next
  case (Deliver gpu)
  assume a: "m_histogramViewUpdatePending (snd (step e s))"
  show ?thesis
  proof (cases "eventLoop s \<and> queue s \<noteq> []")
    case False
    then show ?thesis using a Deliver by (auto split: list.splits)
  next
    case True
    then obtain m ms where q: "queue s = m # ms" by (cases "queue s") auto
    have "m_histogramViewUpdatePending (deliver gpu m (s\<lparr>queue := ms\<rparr>))"
      using a True q Deliver by simp
    then have "snd (snd (control (deliver gpu m (s\<lparr>queue := ms\<rparr>))))"
      by (simp add: control_def)
    then show ?thesis
      unfolding deliver_control
      by (auto simp add: control_def split: Message.split_asm View.split_asm)
  qed
next
  case (WidgetInput iw hw)
  assume "m_histogramViewUpdatePending (snd (step e s))"
  then show ?thesis using WidgetInput by simp
qed

text \<open>
  C3. In every reachable state at most one draw message per target is queued. A call of
  \<open>updateView\<close> for a target whose update-pending flag is set changes nothing, so it
  enqueues no second message. A flag that is clear before an event and set after it was
  set by \<open>updateView\<close> for that target while the target's context existed. When the
  queued draw message of a target is delivered, the flag is cleared and the draw function of
  that target runs.
\<close>

theorem updateView_debounce:
  assumes "reachable c s"
  shows "count_list (queue s) (UpdateViewMsg ImageView) \<le> 1
     \<and> count_list (queue s) (UpdateViewMsg HistogramView) \<le> 1
     \<and> (m_imageViewUpdatePending s \<longrightarrow> updateView ImageView s = (None, s))
     \<and> (m_histogramViewUpdatePending s \<longrightarrow> updateView HistogramView s = (None, s))
     \<and> (\<forall>e. \<not> m_imageViewUpdatePending s \<and> m_imageViewUpdatePending (snd (step e s))
            \<longrightarrow> e = CallUpdateView ImageView \<and> m_imageView_context s)
     \<and> (\<forall>e. \<not> m_histogramViewUpdatePending s \<and> m_histogramViewUpdatePending (snd (step e s))
            \<longrightarrow> e = CallUpdateView HistogramView \<and> m_histogramView_context s)
     \<and> (\<forall>gpu ms. eventLoop s \<and> queue s = UpdateViewMsg ImageView # ms
            \<longrightarrow> snd (step (Deliver gpu) s)
                  = execImageDraw gpu (s\<lparr>queue := ms, m_imageViewUpdatePending := False\<rparr>)
              \<and> \<not> m_imageViewUpdatePending (snd (step (Deliver gpu) s)))
     \<and> (\<forall>gpu ms. eventLoop s \<and> queue s = UpdateViewMsg HistogramView # ms
            \<longrightarrow> snd (step (Deliver gpu) s)
                  = execHistoDraw (s\<lparr>queue := ms, m_histogramViewUpdatePending := False\<rparr>)
              \<and> \<not> m_histogramViewUpdatePending (snd (step (Deliver gpu) s)))"
proof -
  have d: "debounced s" using assms by (rule reachable_debounced)
  have c1: "count_list (queue s) (UpdateViewMsg ImageView) \<le> 1"
    and c2: "count_list (queue s) (UpdateViewMsg HistogramView) \<le> 1"
    using d by (simp_all add: debounced_def)
  have u1: "m_imageViewUpdatePending s \<longrightarrow> updateView ImageView s = (None, s)"
    and u2: "m_histogramViewUpdatePending s \<longrightarrow> updateView HistogramView s = (None, s)"
    by (simp_all add: updateView_def)
  have s1: "\<forall>e. \<not> m_imageViewUpdatePending s \<and> m_imageViewUpdatePending (snd (step e s))
            \<longrightarrow> e = CallUpdateView ImageView \<and> m_imageView_context s"
    using step_imagePending by blast
  have s2: "\<forall>e. \<not> m_histogramViewUpdatePending s \<and> m_histogramViewUpdatePending (snd (step e s))
            \<longrightarrow> e = CallUpdateView HistogramView \<and> m_histogramView_context s"
    using step_histogramPending by blast
  have x1: "\<forall>gpu ms. eventLoop s \<and> queue s = UpdateViewMsg ImageView # ms
            \<longrightarrow> snd (step (Deliver gpu) s)
                  = execImageDraw gpu (s\<lparr>queue := ms, m_imageViewUpdatePending := False\<rparr>)
              \<and> \<not> m_imageViewUpdatePending (snd (step (Deliver gpu) s))"
  proof (intro allI impI)
    fix gpu ms
    assume a: "eventLoop s \<and> queue s = UpdateViewMsg ImageView # ms"
    then have p: "m_imageViewUpdatePending s"
      using d by (auto simp add: debounced_def split: if_splits)
    have e: "snd (step (Deliver gpu) s)
               = execImageDraw gpu (s\<lparr>queue := ms, m_imageViewUpdatePending := False\<rparr>)"
      using a p by (simp add: updateViewSlot_Image)
    have "control (execImageDraw gpu (s\<lparr>queue := ms, m_imageViewUpdatePending := False\<rparr>))
            = control (s\<lparr>queue := ms, m_imageViewUpdatePending := False\<rparr>)"
      by (rule execImageDraw_control)
    from control_imagePending [OF this] e
    show "snd (step (Deliver gpu) s)
            = execImageDraw gpu (s\<lparr>queue := ms, m_imageViewUpdatePending := False\<rparr>)
          \<and> \<not> m_imageViewUpdatePending (snd (step (Deliver gpu) s))"
      by simp
  qed
  have x2: "\<forall>gpu ms. eventLoop s \<and> queue s = UpdateViewMsg HistogramView # ms
            \<longrightarrow> snd (step (Deliver gpu) s)
                  = execHistoDraw (s\<lparr>queue := ms, m_histogramViewUpdatePending := False\<rparr>)
              \<and> \<not> m_histogramViewUpdatePending (snd (step (Deliver gpu) s))"
  proof (intro allI impI)
    fix gpu ms
    assume a: "eventLoop s \<and> queue s = UpdateViewMsg HistogramView # ms"
    then have p: "m_histogramViewUpdatePending s"
      using d by (auto simp add: debounced_def split: if_splits)
    have e: "snd (step (Deliver gpu) s)
               = execHistoDraw (s\<lparr>queue := ms, m_histogramViewUpdatePending := False\<rparr>)"
      using a p by (simp add: updateViewSlot_Histogram)
    have "control (execHistoDraw (s\<lparr>queue := ms, m_histogramViewUpdatePending := False\<rparr>))
            = control (s\<lparr>queue := ms, m_histogramViewUpdatePending := False\<rparr>)"
      by (rule execHistoDraw_control)
    from control_histogramPending [OF this] e
    show "snd (step (Deliver gpu) s)
            = execHistoDraw (s\<lparr>queue := ms, m_histogramViewUpdatePending := False\<rparr>)
          \<and> \<not> m_histogramViewUpdatePending (snd (step (Deliver gpu) s))"
      by simp
  qed
  from c1 c2 u1 u2 s1 s2 x1 x2 show ?thesis by blast
qed

lemma exampleBothPending_facts:
  "m_imageViewUpdatePending exampleBothPending"
  "m_histogramViewUpdatePending exampleBothPending"
  "eventLoop exampleBothPending"
  "queue exampleBothPending = [UpdateViewMsg ImageView, UpdateViewMsg HistogramView]"
  by (simp_all add: exampleBothPending_def newRenderer_def exampleInitEnv_def threadInitSlot_def
        makeContexts_def makeGlfs_def buildGlProgs_def glCalls_def updateView_def Let_def)

text \<open>
  Witness for C3: after thread initialisation and one \<open>updateView\<close> call per view both
  flags are set and each view has one queued message.
\<close>

theorem updateView_debounce_witness:
  "reachable exampleCollaborators exampleBothPending
   \<and> m_imageViewUpdatePending exampleBothPending
   \<and> eventLoop exampleBothPending
   \<and> queue exampleBothPending = [UpdateViewMsg ImageView, UpdateViewMsg HistogramView]
   \<and> count_list (queue exampleBothPending) (UpdateViewMsg ImageView) \<le> 1
   \<and> updateView ImageView exampleBothPending = (None, exampleBothPending)
   \<and> \<not> m_imageViewUpdatePending (snd (step (Deliver exampleGpu) exampleBothPending))"
proof -
  have r: "reachable exampleCollaborators exampleBothPending"
    unfolding exampleBothPending_def by (intro reachable_run reachable_init)
  from updateView_debounce [OF r] exampleBothPending_facts r show ?thesis by blast
qed

text \<open>
  C4. \<open>updateView\<close> with a view that is neither the image view nor the histogram view
  throws, and \<open>showImage\<close> with non-empty data and a width or height that is not positive
  throws; in both cases the state at the throw is the state before the call: no pending
  flag, image data, extrema future or queued message has changed.
\<close>

theorem precondition_violations_rejected:
  "(view \<noteq> ImageView \<and> view \<noteq> HistogramView
      \<longrightarrow> updateView view s = (Some UpdateViewUnknownView, s))
   \<and> (imageData \<noteq> [] \<and> (width imageSize \<le> 0 \<or> height imageSize \<le> 0)
      \<longrightarrow> showImage imageData imageSize filter' s = (Some ShowImageBadSize, s))"
  by (cases view) (simp_all add: updateView_def showImage_def)

text \<open>Witness for C4: an unknown view, and one sample shown with width 0.\<close>

theorem precondition_violations_rejected_witness:
  "OtherView 0 \<noteq> ImageView \<and> OtherView 0 \<noteq> HistogramView
   \<and> updateView (OtherView 0) (newRenderer exampleCollaborators)
       = (Some UpdateViewUnknownView, newRenderer exampleCollaborators)
   \<and> [1 :: GLushort] \<noteq> []
   \<and> (width \<lparr>width = 0, height = 5\<rparr> \<le> 0 \<or> height \<lparr>width = 0, height = 5\<rparr> \<le> 0)
   \<and> showImage [1] \<lparr>width = 0, height = 5\<rparr> True (newRenderer exampleCollaborators)
       = (Some ShowImageBadSize, newRenderer exampleCollaborators)"
  using precondition_violations_rejected
          [of "OtherView 0" "newRenderer exampleCollaborators" "[1]" "\<lparr>width = 0, height = 5\<rparr>" True]
  by simp

text \<open>
  C1, as stated, fails: \<open>showImage\<close> never compares the length of the data with
  width * height. Three samples shown with size 1 x 1 are accepted and the new-image
  message is queued.
\<close>

theorem showImage_length_unchecked:
  "fst (showImage [1, 2, 3] \<lparr>width = 1, height = 1\<rparr> False (newRenderer exampleCollaborators)) = None
   \<and> int (length [1, 2, 3 :: GLushort])
       \<noteq> width \<lparr>width = 1, height = 1\<rparr> * height \<lparr>width = 1, height = 1\<rparr>
   \<and> queue (snd (showImage [1, 2, 3] \<lparr>width = 1, height = 1\<rparr> False
                   (newRenderer exampleCollaborators)))
       = [NewImageMsg [1, 2, 3] \<lparr>width = 1, height = 1\<rparr> False]"
  by (simp add: showImage_def newRenderer_def)

text \<open>
  C1, amended. A \<open>showImage\<close> request with non-empty data is accepted exactly when width
  and height are both positive, whatever the length of the data; a rejected request leaves
  the state as it was.
\<close>

theorem showImage_accepts_positive_sizes:
  "imageData \<noteq> [] \<Longrightarrow>
     (fst (showImage imageData imageSize filter' s) = None
        \<longleftrightarrow> 0 < width imageSize \<and> 0 < height imageSize)
     \<and> (fst (showImage imageData imageSize filter' s) \<noteq> None
        \<longrightarrow> snd (showImage imageData imageSize filter' s) = s)"
  by (auto simp add: showImage_def)

text \<open>Witness for the amended C1: an accepted and a rejected request.\<close>

theorem showImage_accepts_positive_sizes_witness:
  "[1, 2, 3 :: GLushort] \<noteq> []
   \<and> fst (showImage [1, 2, 3] \<lparr>width = 1, height = 1\<rparr> False (newRenderer exampleCollaborators)) = None
   \<and> fst (showImage [1, 2, 3] \<lparr>width = 0, height = 3\<rparr> False (newRenderer exampleCollaborators)) \<noteq> None
   \<and> snd (showImage [1, 2, 3] \<lparr>width = 0, height = 3\<rparr> False (newRenderer exampleCollaborators))
       = newRenderer exampleCollaborators"
proof -
  have h: "[1, 2, 3 :: GLushort] \<noteq> []" by simp
  from showImage_accepts_positive_sizes [OF h, of "\<lparr>width = 1, height = 1\<rparr>" False
        "newRenderer exampleCollaborators"]
       showImage_accepts_positive_sizes [OF h, of "\<lparr>width = 0, height = 3\<rparr>" False
        "newRenderer exampleCollaborators"]
  show ?thesis using h by simp
qed

lemma unat_of_nat_small:
  assumes "k < 4294967296"
  shows "unat (of_nat k :: GLuint) = k"
proof -
  have "(2::nat) ^ LENGTH(32) = 4294967296" by simp
  then have "k mod 2 ^ LENGTH(32) = k" using assms by (simp only: mod_less)
  then show ?thesis by (simp only: unat_of_nat)
qed

lemma freshName_props:
  assumes "length used < 4294967294"
  shows "freshName used \<notin> set used \<and> freshName used \<noteq> 0 \<and> freshName used \<noteq> GLuint_max"
proof -
  define ks where "ks = [1 ..< length used + 2]"
  define cands :: "GLuint list" where "cands = map of_nat ks"
  have ks: "\<And>k. k \<in> set ks \<Longrightarrow> 1 \<le> k \<and> k < 4294967295"
    using assms by (auto simp add: ks_def)
  have "inj_on (of_nat :: nat \<Rightarrow> GLuint) (set ks)"
  proof (rule inj_onI)
    fix a b
    assume "a \<in> set ks" "b \<in> set ks" and e: "(of_nat a :: GLuint) = of_nat b"
    then have "a < 4294967296" "b < 4294967296" using ks by fastforce+
    then have u: "unat (of_nat a :: GLuint) = a" "unat (of_nat b :: GLuint) = b"
      by (simp_all only: unat_of_nat_small)
    from e have "unat (of_nat a :: GLuint) = unat (of_nat b :: GLuint)"
      by (rule arg_cong)
    then show "a = b" by (simp only: u)
  qed
  moreover have "distinct ks" by (simp only: ks_def distinct_upt)
  ultimately have "distinct cands" by (simp only: cands_def distinct_map simp_thms)
  then have "card (set cands) = length cands" by (rule distinct_card)
  moreover have "length cands = length used + 1"
    unfolding cands_def ks_def length_map length_upt by arith
  moreover have "card (set used) \<le> length used" by (rule card_length)
  ultimately have "\<not> set cands \<subseteq> set used"
    using card_mono [of "set used" "set cands"] by auto
  then obtain x where "x \<in> set cands" "x \<notin> set used" by auto
  then have "filter (\<lambda>n. n \<notin> set used) cands \<noteq> []"
    by (auto simp add: filter_empty_conv)
  then obtain n ns where f: "filter (\<lambda>n. n \<notin> set used) cands = n # ns"
    by (cases "filter (\<lambda>n. n \<notin> set used) cands") auto
  have fr: "freshName used = n"
    unfolding freshName_def ks_def [symmetric] cands_def [symmetric] by (simp add: f)
  have "n \<in> set (filter (\<lambda>n. n \<notin> set used) cands)" unfolding f by simp
  then have n1: "n \<notin> set used" and n2: "n \<in> set cands" by auto
  from n2 obtain k where k: "n = of_nat k" "k \<in> set ks" by (auto simp add: cands_def)
  then have kb: "1 \<le> k" "k < 4294967295" using ks by auto
  then have "k < 4294967296" by simp
  then have "unat n = k" unfolding k(1) by (rule unat_of_nat_small)
  moreover have "unat (0 :: GLuint) = 0" "unat GLuint_max = 4294967295"
    by (simp_all add: GLuint_max_def)
  ultimately have "n \<noteq> 0" "n \<noteq> GLuint_max" using kb by auto
  with n1 fr show ?thesis by simp
qed


subsection \<open>Texture handles\<close>

lemma delImage_tex: "texState (delImage s) = delImageT (texState s)"
  by (simp add: delImage_def cond_def reading_def glDeleteTextures_def texState_def)

lemma delHistogramBlocks_tex: "texState (delHistogramBlocks s) = delHistogramBlocksT (texState s)"
  by (simp add: delHistogramBlocks_def cond_def reading_def glDeleteTextures_def texState_def)

lemma delHistogram_tex: "texState (delHistogram s) = delHistogramT (texState s)"
  by (simp add: delHistogram_def cond_def reading_def glDeleteTextures_def texState_def
      glCalls_def glDeleteVertexArrays_def glDeleteBuffers_def)

lemma execHistoCalc_tex: "texState (execHistoCalc s) = allocHistogramBlocksT (texState s)"
  by (simp add: execHistoCalc_def condElse_def reading_def glGenTextures_def texState_def
      glCalls_def glCallsOf_def Let_def)

lemma execHistoConsolidate_tex:
  "texState (execHistoConsolidate gpu s) = allocHistogramT (texState s)"
  by (simp add: execHistoConsolidate_def execHistoConsolidate_setup_def
      execHistoConsolidate_execute_def execHistoConsolidate_retrieve_def
      cond_def condElse_def reading_def glGenTextures_def texState_def
      glCalls_def glCallsOf_def Let_def)

lemma execImageDraw_tex: "texState (execImageDraw gpu s) = texState s"
proof -
  have "preserves (\<lambda>t. texState t = texState s) (execImageDraw gpu)"
    unfolding block_defs
    by (intro preserves_intros)
       (simp_all add: preserves_def leaf_defs texState_def Let_def split: option.splits)
  then show ?thesis by (simp add: preserves_def)
qed

lemma execHistoDraw_tex: "texState (execHistoDraw s) = texState s"
proof -
  have "preserves (\<lambda>t. texState t = texState s) execHistoDraw"
    unfolding block_defs
    by (intro preserves_intros)
       (simp_all add: preserves_def leaf_defs texState_def Let_def split: option.splits)
  then show ?thesis by (simp add: preserves_def)
qed

lemma glCalls_tex: "texState (glCalls cs s) = texState s"
  by (simp add: glCalls_def texState_def)

lemma newImageSlot_teardown_tex:
  "texState (newImageSlot_teardown d sz s) =
     (if m_imageData s \<noteq> [] \<and> (d = [] \<or> m_imageSize s \<noteq> sz)
      then delHistogramBlocksT (delImageT (texState s)) else texState s)"
  by (simp add: newImageSlot_teardown_def cond_def delImage_tex delHistogramBlocks_tex glCalls_tex)
     (simp add: glCalls_def)

lemma allocImage_block_tex:
  "texState
     (condElse (\<lambda>s. m_image s = GLuint_max)
        (seq [glGenTextures (\<lambda>n s. s\<lparr>m_image := n\<rparr>), glCallsOf cs1])
        (glCallsOf cs2) s)
   = allocImageT (texState s)"
  by (simp add: condElse_def glGenTextures_def glCallsOf_def glCalls_def texState_def Let_def)

lemma newImageSlot_upload_tex:
  "texState (newImageSlot_upload gpu d sz f s) =
     (if d \<noteq> [] then
        allocHistogramT (allocHistogramBlocksT (allocImageT (setLoadedT True (texState s))))
      else texState s)"
proof (cases "d = []")
  case True
  then show ?thesis by (simp add: newImageSlot_upload_def cond_def)
next
  case False
  have "texState (s\<lparr>m_imageData := d, m_imageSize := sz\<rparr>) = setLoadedT True (texState s)"
    using False by (simp add: texState_def)
  then show ?thesis
    using False
    by (simp add: newImageSlot_upload_def cond_def execHistoConsolidate_tex execHistoCalc_tex
        glCallsOf_def glCalls_tex allocImage_block_tex)
qed

lemma newImageSlot_tex:
  "texState (newImageSlot gpu d sz f s) =
     (if d \<noteq> [] then
        allocHistogramT (allocHistogramBlocksT (allocImageT (setLoadedT True
          (texState (newImageSlot_teardown d sz s)))))
      else texState (newImageSlot_teardown d sz s))"
  by (simp add: newImageSlot_def execHistoDraw_tex execImageDraw_tex newImageSlot_upload_tex)

lemma setHistogramBinCountSlot_teardown_tex:
  "texState (setHistogramBinCountSlot_teardown b s) =
     delHistogramT (delHistogramBlocksT (texState s))"
proof -
  have "\<And>t. texState (t\<lparr>m_histogramBinCount := b\<rparr>) = texState t"
    by (simp add: texState_def)
  then show ?thesis
    by (simp add: setHistogramBinCountSlot_teardown_def delHistogram_tex delHistogramBlocks_tex
        glCalls_tex)
qed

lemma setHistogramBinCountSlot_teardown_imageData:
  "m_imageData (setHistogramBinCountSlot_teardown b s) = m_imageData s"
proof -
  have "snd (snd (snd (snd (texState (setHistogramBinCountSlot_teardown b s)))))
          = snd (snd (snd (snd (texState s))))"
    unfolding setHistogramBinCountSlot_teardown_tex
    by (cases "texState s" rule: namesTracked.cases) simp
  moreover have "preserves (\<lambda>t. m_imageData t = m_imageData s) (setHistogramBinCountSlot_teardown b)"
    unfolding block_defs
    by (intro preserves_intros)
       (simp_all add: preserves_def leaf_defs Let_def split: option.splits)
  ultimately show ?thesis by (simp add: preserves_def)
qed

lemma setHistogramBinCountSlot_tex:
  "texState (setHistogramBinCountSlot gpu b s) =
     (if b \<noteq> m_histogramBinCount s then
        (if m_imageData s \<noteq> []
         then allocHistogramT (allocHistogramBlocksT (delHistogramT (delHistogramBlocksT (texState s))))
         else delHistogramT (delHistogramBlocksT (texState s)))
      else texState s)"
  by (simp add: setHistogramBinCountSlot_def cond_def setHistogramBinCountSlot_teardown_imageData
      execHistoDraw_tex execHistoConsolidate_tex execHistoCalc_tex
      setHistogramBinCountSlot_teardown_tex)

lemma namesTracked_length:
  assumes "namesTracked (i, b, h, live, loaded)"
  shows "length live < 4294967294"
proof -
  have "distinct live" and sub: "set live \<subseteq> {i, b, h}" using assms by auto
  then have "length live = card (set live)" by (simp add: distinct_card)
  also have "\<dots> \<le> card {i, b, h}" using sub by (intro card_mono) auto
  also have "\<dots> \<le> 3" by (simp add: card_insert_if)
  finally show ?thesis by simp
qed

lemma namesTracked_fresh:
  assumes "namesTracked (i, b, h, live, loaded)"
  shows "freshName live \<notin> set live" "freshName live \<noteq> GLuint_max"
  using freshName_props [OF namesTracked_length [OF assms]] by simp_all

lemma namesTracked_delImage: "namesTracked t \<Longrightarrow> namesTracked (delImageT t)"
proof (cases t rule: namesTracked.cases)
  case (1 i b h live loaded)
  assume "namesTracked t"
  then show ?thesis unfolding 1 by (simp add: distinct_removeAll) blast
qed

lemma namesTracked_delHistogramBlocks:
  "namesTracked t \<Longrightarrow> namesTracked (delHistogramBlocksT t)"
proof (cases t rule: namesTracked.cases)
  case (1 i b h live loaded)
  assume "namesTracked t"
  then show ?thesis unfolding 1 by (simp add: distinct_removeAll) blast
qed

lemma namesTracked_delHistogram: "namesTracked t \<Longrightarrow> namesTracked (delHistogramT t)"
proof (cases t rule: namesTracked.cases)
  case (1 i b h live loaded)
  assume "namesTracked t"
  then show ?thesis unfolding 1 by (simp add: distinct_removeAll) blast
qed

lemma namesTracked_setLoaded: "namesTracked t \<Longrightarrow> namesTracked (setLoadedT l t)"
  by (cases t rule: namesTracked.cases) simp

lemmas namesTracked_del =
  namesTracked_delImage namesTracked_delHistogramBlocks namesTracked_delHistogram
  namesTracked_setLoaded

lemma namesTracked_allocImage: "namesTracked t \<Longrightarrow> namesTracked (allocImageT t)"
proof -
  obtain i b h live loaded where t: "t = (i, b, h, live, loaded)"
    by (cases t rule: namesTracked.cases)
  assume "namesTracked t"
  then show ?thesis
    using namesTracked_fresh [of i b h live loaded] unfolding t by simp blast
qed

lemma namesTracked_allocHistogramBlocks:
  "namesTracked t \<Longrightarrow> namesTracked (allocHistogramBlocksT t)"
proof -
  obtain i b h live loaded where t: "t = (i, b, h, live, loaded)"
    by (cases t rule: namesTracked.cases)
  assume "namesTracked t"
  then show ?thesis
    using namesTracked_fresh [of i b h live loaded] unfolding t by simp blast
qed

lemma namesTracked_allocHistogram: "namesTracked t \<Longrightarrow> namesTracked (allocHistogramT t)"
proof -
  obtain i b h live loaded where t: "t = (i, b, h, live, loaded)"
    by (cases t rule: namesTracked.cases)
  assume "namesTracked t"
  then show ?thesis
    using namesTracked_fresh [of i b h live loaded] unfolding t by simp blast
qed

lemma allocated_after_alloc:
  assumes "namesTracked t"
  shows "fst (allocImageT t) \<noteq> GLuint_max"
    and "fst (snd (allocHistogramBlocksT t)) \<noteq> GLuint_max"
    and "fst (snd (snd (allocHistogramT t))) \<noteq> GLuint_max"
proof -
  obtain i b h live loaded where t: "t = (i, b, h, live, loaded)"
    by (cases t rule: namesTracked.cases)
  from assms namesTracked_fresh [of i b h live loaded]
  show "fst (allocImageT t) \<noteq> GLuint_max"
    and "fst (snd (allocHistogramBlocksT t)) \<noteq> GLuint_max"
    and "fst (snd (snd (allocHistogramT t))) \<noteq> GLuint_max"
    unfolding t by auto
qed

lemma alloc_keeps_others:
  "fst (allocHistogramBlocksT t) = fst t"
  "fst (allocHistogramT t) = fst t"
  "fst (snd (allocHistogramT t)) = fst (snd t)"
  "snd (snd (snd (snd (allocImageT t)))) = snd (snd (snd (snd t)))"
  "snd (snd (snd (snd (allocHistogramBlocksT t)))) = snd (snd (snd (snd t)))"
  "snd (snd (snd (snd (allocHistogramT t)))) = snd (snd (snd (snd t)))"
  by (cases t rule: namesTracked.cases; simp)+

lemma loadedAllocated_iff:
  "loadedAllocated t \<longleftrightarrow>
     (snd (snd (snd (snd t))) \<longrightarrow>
        fst t \<noteq> GLuint_max \<and> fst (snd t) \<noteq> GLuint_max \<and> fst (snd (snd t)) \<noteq> GLuint_max)"
  by (cases t rule: namesTracked.cases) simp

lemma tracked_alloc_all:
  assumes "namesTracked t"
  shows "namesTracked (allocHistogramT (allocHistogramBlocksT (allocImageT t)))"
    and "loadedAllocated (allocHistogramT (allocHistogramBlocksT (allocImageT t)))"
proof -
  have n1: "namesTracked (allocImageT t)" using assms by (rule namesTracked_allocImage)
  have n2: "namesTracked (allocHistogramBlocksT (allocImageT t))"
    using n1 by (rule namesTracked_allocHistogramBlocks)
  show "namesTracked (allocHistogramT (allocHistogramBlocksT (allocImageT t)))"
    using n2 by (rule namesTracked_allocHistogram)
  show "loadedAllocated (allocHistogramT (allocHistogramBlocksT (allocImageT t)))"
    unfolding loadedAllocated_iff
    using allocated_after_alloc(1) [OF assms] allocated_after_alloc(2) [OF n1]
      allocated_after_alloc(3) [OF n2]
    by (simp add: alloc_keeps_others)
qed

lemma newImageSlot_tracked:
  assumes "texturesTracked s"
  shows "texturesTracked (newImageSlot gpu d sz f s)"
proof -
  let ?t = "texState (newImageSlot_teardown d sz s)"
  have n: "namesTracked (texState s)" and l: "loadedAllocated (texState s)"
    using assms by (simp_all add: texturesTracked_def)
  have nt: "namesTracked ?t"
    unfolding newImageSlot_teardown_tex using n by (simp add: namesTracked_del)
  have lt: "loadedAllocated ?t"
    unfolding newImageSlot_teardown_tex using l
    by (cases "texState s" rule: namesTracked.cases) auto
  show ?thesis
  proof (cases "d = []")
    case True
    then show ?thesis using nt lt by (simp add: texturesTracked_def newImageSlot_tex)
  next
    case False
    have "namesTracked (setLoadedT True ?t)" using nt by (rule namesTracked_setLoaded)
    from tracked_alloc_all [OF this] False
    show ?thesis by (simp add: texturesTracked_def newImageSlot_tex)
  qed
qed

lemma setHistogramBinCountSlot_tracked:
  assumes "texturesTracked s"
  shows "texturesTracked (setHistogramBinCountSlot gpu b s)"
proof -
  obtain i bl h live loaded where t: "texState s = (i, bl, h, live, loaded)"
    by (cases "texState s" rule: namesTracked.cases)
  have ld: "loaded = (m_imageData s \<noteq> [])" using t by (simp add: texState_def)
  have n: "namesTracked (texState s)" and l: "loadedAllocated (texState s)"
    using assms by (simp_all add: texturesTracked_def)
  let ?d = "delHistogramT (delHistogramBlocksT (texState s))"
  have nd: "namesTracked ?d" using n by (simp add: namesTracked_del)
  have fd: "fst ?d = i" "snd (snd (snd (snd ?d))) = loaded" by (simp_all add: t)
  show ?thesis
  proof (cases "b \<noteq> m_histogramBinCount s")
    case False
    then show ?thesis using assms by (simp add: texturesTracked_def setHistogramBinCountSlot_tex)
  next
    case True
    show ?thesis
    proof (cases "m_imageData s \<noteq> []")
      case False
      then have "loadedAllocated ?d" using fd ld by (simp add: loadedAllocated_iff)
      then show ?thesis using True False nd
        by (simp add: texturesTracked_def setHistogramBinCountSlot_tex)
    next
      case loaded: True
      then have i: "i \<noteq> GLuint_max" using l t ld by simp
      have n1: "namesTracked (allocHistogramBlocksT ?d)"
        using nd by (rule namesTracked_allocHistogramBlocks)
      have n2: "namesTracked (allocHistogramT (allocHistogramBlocksT ?d))"
        using n1 by (rule namesTracked_allocHistogram)
      have "loadedAllocated (allocHistogramT (allocHistogramBlocksT ?d))"
        unfolding loadedAllocated_iff
        using allocated_after_alloc(2) [OF nd] allocated_after_alloc(3) [OF n1] i fd(1)
        by (simp add: alloc_keeps_others)
      then show ?thesis using True loaded n2
        by (simp add: texturesTracked_def setHistogramBinCountSlot_tex)
    qed
  qed
qed

lemma updateViewSlot_tex: "texState (updateViewSlot gpu v s) = texState s"
proof -
  have "\<And>t b. texState (t\<lparr>m_imageViewUpdatePending := b\<rparr>) = texState t"
    "\<And>t b. texState (t\<lparr>m_histogramViewUpdatePending := b\<rparr>) = texState t"
    by (simp_all add: texState_def)
  then show ?thesis
    by (cases v)
       (simp_all add: updateViewSlot_Image updateViewSlot_Histogram updateViewSlot_Other
          execImageDraw_tex execHistoDraw_tex)
qed

lemma threadInitSlot_tex: "texState (snd (threadInitSlot env s)) = texState s"
  by (simp add: threadInitSlot_def makeContexts_def makeGlfs_def buildGlProgs_def glCalls_def
      texState_def Let_def)

lemma step_tracked: "texturesTracked s \<Longrightarrow> texturesTracked (snd (step e s))"
proof (cases e)
  case (CallUpdateView v)
  have "texState (snd (updateView v s)) = texState s"
    by (cases v) (simp_all add: updateView_def texState_def)
  moreover assume "texturesTracked s"
  ultimately show ?thesis using CallUpdateView by (simp add: texturesTracked_def)
next
  case (CallShowImage d sz f)
  have "texState (snd (showImage d sz f s)) = texState s"
    by (simp add: showImage_def texState_def)
  moreover assume "texturesTracked s"
  ultimately show ?thesis using CallShowImage by (simp add: texturesTracked_def)
next
  case (CallSetHistogramBinCount b)
  have "texState (setHistogramBinCount b s) = texState s"
    by (simp add: setHistogramBinCount_def texState_def)
  moreover assume "texturesTracked s"
  ultimately show ?thesis using CallSetHistogramBinCount by (simp add: texturesTracked_def)
next
  case (ThreadInit env)
  have "texState (snd (step (ThreadInit env) s)) = texState (snd (threadInitSlot env s))"
    by (cases "threadInitSlot env s") (auto simp add: texState_def split: option.splits)
  then have "texState (snd (step (ThreadInit env) s)) = texState s"
    by (simp add: threadInitSlot_tex)
  moreover assume "texturesTracked s"
  ultimately show ?thesis using ThreadInit by (simp add: texturesTracked_def)
next
  case (Deliver gpu)
  assume a: "texturesTracked s"
  show ?thesis
  proof (cases "eventLoop s \<and> queue s \<noteq> []")
    case False
    then show ?thesis using a Deliver by (auto split: list.splits)
  next
    case True
    then obtain m ms where q: "queue s = m # ms" by (cases "queue s") auto
    have "texState (s\<lparr>queue := ms\<rparr>) = texState s" by (simp add: texState_def)
    then have a': "texturesTracked (s\<lparr>queue := ms\<rparr>)" using a by (simp add: texturesTracked_def)
    have "texturesTracked (deliver gpu m (s\<lparr>queue := ms\<rparr>))"
    proof (cases m)
      case (UpdateViewMsg v)
      then show ?thesis using a' by (simp add: texturesTracked_def updateViewSlot_tex)
    next
      case (NewImageMsg d sz f)
      then show ?thesis using a' by (simp add: newImageSlot_tracked)
    next
      case (SetHistogramBinCountMsg b)
      then show ?thesis using a' by (simp add: setHistogramBinCountSlot_tracked)
    qed
    then show ?thesis using True q Deliver by simp
  qed
next
  case (WidgetInput iw hw)
  have "texState (s\<lparr>m_imageWidget := iw, m_histogramWidget := hw\<rparr>) = texState s"
    by (simp add: texState_def)
  moreover assume "texturesTracked s"
  ultimately show ?thesis using WidgetInput by (simp add: texturesTracked_def)
qed

lemma reachable_tracked: "reachable c s \<Longrightarrow> texturesTracked s"
proof (induction rule: reachable.induct)
  case reachable_init
  show ?case by (simp add: texturesTracked_def texState_def newRenderer_def)
next
  case (reachable_step s e)
  then show ?case by (simp add: step_tracked)
qed

lemma reachable_loaded_allocated:
  assumes "reachable c s" "m_imageData s \<noteq> []"
  shows "m_image s \<noteq> GLuint_max" "m_histogramBlocks s \<noteq> GLuint_max" "m_histogram s \<noteq> GLuint_max"
  using reachable_tracked [OF assms(1)] assms(2)
  by (simp_all add: texturesTracked_def texState_def)

lemmas eval_defs =
  block_defs leaf_defs cond_def condElse_def reading_def updateViewSlot_def
  newRenderer_def exampleCollaborators_def exampleInitEnv_def exampleGpu_def
  threadInitSlot_def makeContexts_def makeGlfs_def buildGlProgs_def
  showImage_def updateView_def setHistogramBinCount_def
  findImageExtrema_def freshName_def GLuint_max_def Let_def resize_def ceilDiv_def
  float_ne_def vec2_ne_def GLfloat_of_GLushort_def GLfloat_of_GLuint_def highlightCoord_def

subsection \<open>The call log only grows\<close>

lemma execImageDraw_log: "\<exists>cs. glLog (execImageDraw gpu s) = glLog s @ cs"
proof -
  have "preserves (\<lambda>t. \<exists>cs. glLog t = glLog s @ cs) (execImageDraw gpu)"
    unfolding block_defs
    by (intro preserves_intros)
       (auto simp add: preserves_def leaf_defs Let_def split: option.splits)
  then show ?thesis by (simp add: preserves_def)
qed

lemma execHistoDraw_log: "\<exists>cs. glLog (execHistoDraw s) = glLog s @ cs"
proof -
  have "preserves (\<lambda>t. \<exists>cs. glLog t = glLog s @ cs) execHistoDraw"
    unfolding block_defs
    by (intro preserves_intros)
       (auto simp add: preserves_def leaf_defs Let_def split: option.splits)
  then show ?thesis by (simp add: preserves_def)
qed

lemma newImageSlot_upload_log:
  "\<exists>cs. glLog (newImageSlot_upload gpu d sz f s) = glLog s @ cs"
proof -
  have "preserves (\<lambda>t. \<exists>cs. glLog t = glLog s @ cs) (newImageSlot_upload gpu d sz f)"
    unfolding block_defs
    by (intro preserves_intros)
       (auto simp add: preserves_def leaf_defs Let_def split: option.splits)
  then show ?thesis by (simp add: preserves_def)
qed

lemma newImageSlot_log_after_teardown:
  "\<exists>cs. glLog (newImageSlot gpu d sz f s) = glLog (newImageSlot_teardown d sz s) @ cs"
proof -
  let ?t = "newImageSlot_teardown d sz s"
  obtain c1 where c1: "glLog (newImageSlot_upload gpu d sz f ?t) = glLog ?t @ c1"
    using newImageSlot_upload_log by blast
  obtain c2 where c2: "glLog (execImageDraw gpu (newImageSlot_upload gpu d sz f ?t))
      = glLog (newImageSlot_upload gpu d sz f ?t) @ c2"
    using execImageDraw_log by blast
  obtain c3 where c3: "glLog (execHistoDraw (execImageDraw gpu (newImageSlot_upload gpu d sz f ?t)))
      = glLog (execImageDraw gpu (newImageSlot_upload gpu d sz f ?t)) @ c3"
    using execHistoDraw_log by blast
  have "glLog (newImageSlot gpu d sz f s) = glLog ?t @ (c1 @ c2 @ c3)"
    by (simp add: newImageSlot_def c1 c2 c3)
  then show ?thesis by blast
qed

lemma newImageSlot_teardown_effect:
  assumes "m_imageData s \<noteq> []" "d = [] \<or> m_imageSize s \<noteq> sz"
    and "m_image s \<noteq> GLuint_max" "m_histogramBlocks s \<noteq> GLuint_max"
  shows "glLog (newImageSlot_teardown d sz s)
           = glLog s @ [MakeCurrent ImageView, DeleteTextures (m_image s),
                        DeleteTextures (m_histogramBlocks s)]"
    and "m_image (newImageSlot_teardown d sz s) = GLuint_max"
    and "m_histogramBlocks (newImageSlot_teardown d sz s) = GLuint_max"
    and "m_imageData (newImageSlot_teardown d sz s) = []"
    and "glTextures (newImageSlot_teardown d sz s)
           = removeAll (m_histogramBlocks s) (removeAll (m_image s) (glTextures s))"
  using assms
  by (simp_all add: newImageSlot_teardown_def delImage_def delHistogramBlocks_def cond_def
      reading_def glDeleteTextures_def glCalls_def)

lemma newImageSlot_teardown_same_size:
  assumes "d \<noteq> []" "m_imageSize s = sz"
  shows "newImageSlot_teardown d sz s = glCalls [MakeCurrent ImageView] s"
  using assms by (simp add: newImageSlot_teardown_def cond_def glCalls_def)

subsection \<open>Calls that delete no texture\<close>

lemma list_ex_drop: "\<not> list_ex P xs \<Longrightarrow> \<not> list_ex P (drop n xs)"
  by (meson in_set_dropD list_ex_iff)

lemma execImageDraw_keeps_textures:
  "\<not> list_ex isDeleteTextures (drop n (glLog s))
     \<Longrightarrow> \<not> list_ex isDeleteTextures (drop n (glLog (execImageDraw gpu s)))"
proof -
  have "preserves (\<lambda>t. \<not> list_ex isDeleteTextures (drop n (glLog t))) (execImageDraw gpu)"
    unfolding block_defs
    by (intro preserves_intros)
       (auto simp add: preserves_def leaf_defs Let_def isDeleteTextures_def list_ex_drop
             split: option.splits)
  then show "\<not> list_ex isDeleteTextures (drop n (glLog s))
     \<Longrightarrow> \<not> list_ex isDeleteTextures (drop n (glLog (execImageDraw gpu s)))"
    by (simp add: preserves_def)
qed

lemma execHistoDraw_keeps_textures:
  "\<not> list_ex isDeleteTextures (drop n (glLog s))
     \<Longrightarrow> \<not> list_ex isDeleteTextures (drop n (glLog (execHistoDraw s)))"
proof -
  have "preserves (\<lambda>t. \<not> list_ex isDeleteTextures (drop n (glLog t))) execHistoDraw"
    unfolding block_defs
    by (intro preserves_intros)
       (auto simp add: preserves_def leaf_defs Let_def isDeleteTextures_def list_ex_drop
             split: option.splits)
  then show "\<not> list_ex isDeleteTextures (drop n (glLog s))
     \<Longrightarrow> \<not> list_ex isDeleteTextures (drop n (glLog (execHistoDraw s)))"
    by (simp add: preserves_def)
qed

lemma newImageSlot_upload_keeps_textures:
  "\<not> list_ex isDeleteTextures (drop n (glLog s))
     \<Longrightarrow> \<not> list_ex isDeleteTextures (drop n (glLog (newImageSlot_upload gpu d sz f s)))"
proof -
  have "preserves (\<lambda>t. \<not> list_ex isDeleteTextures (drop n (glLog t)))
          (newImageSlot_upload gpu d sz f)"
    unfolding block_defs
    by (intro preserves_intros)
       (auto simp add: preserves_def leaf_defs Let_def isDeleteTextures_def list_ex_drop
             split: option.splits)
  then show "\<not> list_ex isDeleteTextures (drop n (glLog s))
     \<Longrightarrow> \<not> list_ex isDeleteTextures (drop n (glLog (newImageSlot_upload gpu d sz f s)))"
    by (simp add: preserves_def)
qed

lemma newImageSlot_same_size_keeps_textures:
  assumes "d \<noteq> []" "m_imageSize s = sz"
  shows "\<not> list_ex isDeleteTextures (glSince s (newImageSlot gpu d sz f s))"
proof -
  let ?t = "newImageSlot_teardown d sz s"
  have "\<not> list_ex isDeleteTextures (drop (length (glLog s)) (glLog ?t))"
    unfolding newImageSlot_teardown_same_size [OF assms]
    by (simp add: glCalls_def isDeleteTextures_def)
  then have "\<not> list_ex isDeleteTextures (drop (length (glLog s))
      (glLog (execHistoDraw (execImageDraw gpu (newImageSlot_upload gpu d sz f ?t)))))"
    by (intro execHistoDraw_keeps_textures execImageDraw_keeps_textures
          newImageSlot_upload_keeps_textures)
  then show ?thesis by (simp add: glSince_def newImageSlot_def)
qed

text \<open>
  C7, amended. Let \<open>newImageSlot\<close> run in a reachable state in which an image is loaded.
  The image texture and the block-histogram texture are then allocated. If the request
  clears the image or replaces it with an image of a different size, both textures are
  deleted and both handles are reset to the unallocated value before anything is
  allocated again, and after a clearing request the handles stay unallocated. If the
  request replaces the image with one of the same size, both handles are kept and no
  texture is deleted.
\<close>

theorem newImageSlot_releases_textures:
  assumes "reachable c s" and "m_imageData s \<noteq> []"
  shows "m_image s \<noteq> GLuint_max \<and> m_histogramBlocks s \<noteq> GLuint_max
     \<and> (imageData = [] \<or> m_imageSize s \<noteq> imageSize \<longrightarrow>
          glSince s (newImageSlot_teardown imageData imageSize s)
            = [MakeCurrent ImageView, DeleteTextures (m_image s),
               DeleteTextures (m_histogramBlocks s)]
          \<and> m_image (newImageSlot_teardown imageData imageSize s) = GLuint_max
          \<and> m_histogramBlocks (newImageSlot_teardown imageData imageSize s) = GLuint_max
          \<and> m_image s \<notin> set (glTextures (newImageSlot_teardown imageData imageSize s))
          \<and> m_histogramBlocks s \<notin> set (glTextures (newImageSlot_teardown imageData imageSize s))
          \<and> DeleteTextures (m_image s)
               \<in> set (glSince s (newImageSlot gpu imageData imageSize filter' s))
          \<and> DeleteTextures (m_histogramBlocks s)
               \<in> set (glSince s (newImageSlot gpu imageData imageSize filter' s)))
     \<and> (imageData = [] \<longrightarrow>
          m_image (newImageSlot gpu imageData imageSize filter' s) = GLuint_max
          \<and> m_histogramBlocks (newImageSlot gpu imageData imageSize filter' s) = GLuint_max)
     \<and> (imageData \<noteq> [] \<and> m_imageSize s = imageSize \<longrightarrow>
          m_image (newImageSlot gpu imageData imageSize filter' s) = m_image s
          \<and> m_histogramBlocks (newImageSlot gpu imageData imageSize filter' s)
              = m_histogramBlocks s
          \<and> \<not> list_ex isDeleteTextures (glSince s (newImageSlot gpu imageData imageSize filter' s)))"
proof -
  let ?t = "newImageSlot_teardown imageData imageSize s"
  let ?n = "newImageSlot gpu imageData imageSize filter' s"
  have al: "m_image s \<noteq> GLuint_max" "m_histogramBlocks s \<noteq> GLuint_max"
      "m_histogram s \<noteq> GLuint_max"
    using reachable_loaded_allocated [OF assms] by simp_all
  have p1: "imageData = [] \<or> m_imageSize s \<noteq> imageSize \<longrightarrow>
          glSince s ?t = [MakeCurrent ImageView, DeleteTextures (m_image s),
               DeleteTextures (m_histogramBlocks s)]
          \<and> m_image ?t = GLuint_max
          \<and> m_histogramBlocks ?t = GLuint_max
          \<and> m_image s \<notin> set (glTextures ?t)
          \<and> m_histogramBlocks s \<notin> set (glTextures ?t)
          \<and> DeleteTextures (m_image s) \<in> set (glSince s ?n)
          \<and> DeleteTextures (m_histogramBlocks s) \<in> set (glSince s ?n)"
  proof
    assume c: "imageData = [] \<or> m_imageSize s \<noteq> imageSize"
    note e = newImageSlot_teardown_effect [OF assms(2) c al(1) al(2)]
    obtain cs where cs: "glLog ?n = glLog ?t @ cs"
      using newImageSlot_log_after_teardown by blast
    have "glSince s ?n = [MakeCurrent ImageView, DeleteTextures (m_image s),
               DeleteTextures (m_histogramBlocks s)] @ cs"
      by (simp add: glSince_def cs e(1))
    then show "glSince s ?t = [MakeCurrent ImageView, DeleteTextures (m_image s),
               DeleteTextures (m_histogramBlocks s)]
          \<and> m_image ?t = GLuint_max
          \<and> m_histogramBlocks ?t = GLuint_max
          \<and> m_image s \<notin> set (glTextures ?t)
          \<and> m_histogramBlocks s \<notin> set (glTextures ?t)
          \<and> DeleteTextures (m_image s) \<in> set (glSince s ?n)
          \<and> DeleteTextures (m_histogramBlocks s) \<in> set (glSince s ?n)"
      using e by (simp add: glSince_def)
  qed
  have p2: "imageData = [] \<longrightarrow> m_image ?n = GLuint_max \<and> m_histogramBlocks ?n = GLuint_max"
  proof
    assume d: "imageData = []"
    note e = newImageSlot_teardown_effect [OF assms(2) disjI1 [OF d] al(1) al(2)]
    have "texState ?n = texState ?t" using d by (simp add: newImageSlot_tex)
    then show "m_image ?n = GLuint_max \<and> m_histogramBlocks ?n = GLuint_max"
      using e by (simp add: texState_def)
  qed
  have p3: "imageData \<noteq> [] \<and> m_imageSize s = imageSize \<longrightarrow>
          m_image ?n = m_image s \<and> m_histogramBlocks ?n = m_histogramBlocks s
          \<and> \<not> list_ex isDeleteTextures (glSince s ?n)"
  proof
    assume d: "imageData \<noteq> [] \<and> m_imageSize s = imageSize"
    then have "texState ?n = allocHistogramT (allocHistogramBlocksT (allocImageT
        (setLoadedT True (texState s))))"
      by (simp add: newImageSlot_tex newImageSlot_teardown_tex)
    then have "texState ?n = (m_image s, m_histogramBlocks s, m_histogram s, glTextures s, True)"
      using al by (simp add: texState_def)
    then have "m_image ?n = m_image s \<and> m_histogramBlocks ?n = m_histogramBlocks s"
      by (simp add: texState_def)
    then show "m_image ?n = m_image s \<and> m_histogramBlocks ?n = m_histogramBlocks s
          \<and> \<not> list_ex isDeleteTextures (glSince s ?n)"
      using newImageSlot_same_size_keeps_textures d by blast
  qed
  from al p1 p2 p3 show ?thesis by blast
qed

lemma exampleLoaded_facts:
  "m_imageData exampleLoaded = [10, 20]"
  "m_imageSize exampleLoaded = \<lparr>width = 2, height = 1\<rparr>"
  "m_image exampleLoaded = 1"
  "m_histogramBlocks exampleLoaded = 2"
  "m_histogram exampleLoaded = 3"
  by (simp_all add: exampleLoaded_def eval_defs)

lemma exampleLoaded_reachable: "reachable exampleCollaborators exampleLoaded"
  unfolding exampleLoaded_def by (intro reachable_run reachable_init)

text \<open>Witness for the amended C7: a loaded 2 x 1 image is cleared.\<close>

theorem newImageSlot_releases_textures_witness:
  "reachable exampleCollaborators exampleLoaded
   \<and> m_imageData exampleLoaded \<noteq> []
   \<and> m_image exampleLoaded = 1
   \<and> m_histogramBlocks exampleLoaded = 2
   \<and> DeleteTextures 1 \<in> set (glSince exampleLoaded
         (newImageSlot exampleGpu [] \<lparr>width = 0, height = 0\<rparr> False exampleLoaded))
   \<and> DeleteTextures 2 \<in> set (glSince exampleLoaded
         (newImageSlot exampleGpu [] \<lparr>width = 0, height = 0\<rparr> False exampleLoaded))
   \<and> m_image (newImageSlot exampleGpu [] \<lparr>width = 0, height = 0\<rparr> False exampleLoaded)
       = GLuint_max
   \<and> m_histogramBlocks (newImageSlot exampleGpu [] \<lparr>width = 0, height = 0\<rparr> False exampleLoaded)
       = GLuint_max"
proof -
  have h: "m_imageData exampleLoaded \<noteq> []" by (simp add: exampleLoaded_facts)
  from newImageSlot_releases_textures [OF exampleLoaded_reachable h,
         of "[]" "\<lparr>width = 0, height = 0\<rparr>" exampleGpu False]
  show ?thesis using exampleLoaded_reachable h by (simp add: exampleLoaded_facts)
qed

text \<open>
  C7, as stated, fails for a replacement of the same size: with a 2 x 1 image loaded in
  texture 1, showing another 2 x 1 image keeps texture 1 and block texture 2 and deletes
  neither.
\<close>

theorem newImageSlot_same_size_reuses_texture:
  "m_imageData exampleLoaded \<noteq> []
   \<and> [30, 40 :: GLushort] \<noteq> []
   \<and> m_image exampleLoaded = 1
   \<and> m_histogramBlocks exampleLoaded = 2
   \<and> m_image (newImageSlot exampleGpu [30, 40] \<lparr>width = 2, height = 1\<rparr> False exampleLoaded) = 1
   \<and> m_histogramBlocks
        (newImageSlot exampleGpu [30, 40] \<lparr>width = 2, height = 1\<rparr> False exampleLoaded) = 2
   \<and> m_imageData (newImageSlot exampleGpu [30, 40] \<lparr>width = 2, height = 1\<rparr> False exampleLoaded)
       = [30, 40]
   \<and> DeleteTextures 1 \<notin> set (glSince exampleLoaded
        (newImageSlot exampleGpu [30, 40] \<lparr>width = 2, height = 1\<rparr> False exampleLoaded))
   \<and> DeleteTextures 2 \<notin> set (glSince exampleLoaded
        (newImageSlot exampleGpu [30, 40] \<lparr>width = 2, height = 1\<rparr> False exampleLoaded))"
  by (simp add: exampleLoaded_def glSince_def eval_defs)

subsection \<open>Changing the bin count\<close>

lemma setHistogramBinCountSlot_teardown_effect:
  "m_histogramBlocks (setHistogramBinCountSlot_teardown b s) = GLuint_max"
  "m_histogram (setHistogramBinCountSlot_teardown b s) = GLuint_max"
  "m_histogramBinCount (setHistogramBinCountSlot_teardown b s) = b"
  "m_histogramData (setHistogramBinCountSlot_teardown b s) = m_histogramData s"
  "glTextures (setHistogramBinCountSlot_teardown b s)
     = removeAll (m_histogram s) (removeAll (m_histogramBlocks s) (glTextures s))
   \<or> m_histogram s = GLuint_max \<or> m_histogramBlocks s = GLuint_max"
  by (simp_all add: setHistogramBinCountSlot_teardown_def delHistogramBlocks_def delHistogram_def
      cond_def reading_def glDeleteTextures_def glDeleteVertexArrays_def glDeleteBuffers_def
      glCalls_def)

lemma setHistogramBinCountSlot_teardown_deletes:
  "m_histogramBlocks s \<noteq> GLuint_max \<Longrightarrow>
     DeleteTextures (m_histogramBlocks s) \<in> set (glSince s (setHistogramBinCountSlot_teardown b s))
     \<and> m_histogramBlocks s \<notin> set (glTextures (setHistogramBinCountSlot_teardown b s))"
  "m_histogram s \<noteq> GLuint_max \<Longrightarrow>
     DeleteTextures (m_histogram s) \<in> set (glSince s (setHistogramBinCountSlot_teardown b s))
     \<and> m_histogram s \<notin> set (glTextures (setHistogramBinCountSlot_teardown b s))"
  by (simp_all add: setHistogramBinCountSlot_teardown_def delHistogramBlocks_def delHistogram_def
      cond_def reading_def glDeleteTextures_def glDeleteVertexArrays_def glDeleteBuffers_def
      glCalls_def glSince_def)

lemma execHistoCalc_histogram_frame:
  "m_histogramData (execHistoCalc s) = m_histogramData s"
  "m_histogramBinCount (execHistoCalc s) = m_histogramBinCount s"
proof -
  have "preserves (\<lambda>t. m_histogramData t = m_histogramData s
                      \<and> m_histogramBinCount t = m_histogramBinCount s) execHistoCalc"
    unfolding block_defs
    by (intro preserves_intros) (simp_all add: preserves_def leaf_defs Let_def)
  then show "m_histogramData (execHistoCalc s) = m_histogramData s"
    "m_histogramBinCount (execHistoCalc s) = m_histogramBinCount s"
    by (simp_all add: preserves_def)
qed

lemma resize_fill: "map (\<lambda>_. v) (resize n v xs) = replicate n v"
proof -
  have "map (\<lambda>_. v) (take n xs) = replicate (min n (length xs)) v"
    by (simp add: map_replicate_const)
  then have "map (\<lambda>_. v) (resize n v xs) = replicate (min n (length xs) + (n - length xs)) v"
    by (simp add: resize_def replicate_add)
  moreover have "min n (length xs) + (n - length xs) = n" by arith
  ultimately show ?thesis by simp
qed

lemma length_resize [simp]: "length (resize n v xs) = n"
  by (simp add: resize_def)

lemma execHistoConsolidate_setup_zeroes:
  "m_histogramData (execHistoConsolidate_setup s) = replicate (unat (m_histogramBinCount s)) 0"
  "m_histogramBinCount (execHistoConsolidate_setup s) = m_histogramBinCount s"
  "TexSubImage1D (m_histogramBinCount s) (replicate (unat (m_histogramBinCount s)) 0)
     \<in> set (glSince s (execHistoConsolidate_setup s))"
proof -
  have z: "length xs = n \<Longrightarrow> map (\<lambda>_. 0 :: GLuint) xs = replicate n 0" for xs n
    by (auto simp add: map_replicate_const)
  show "m_histogramData (execHistoConsolidate_setup s) = replicate (unat (m_histogramBinCount s)) 0"
    by (simp add: execHistoConsolidate_setup_def cond_def condElse_def reading_def
        glGenTextures_def glCallsOf_def glCalls_def Let_def resize_fill z)
  show "m_histogramBinCount (execHistoConsolidate_setup s) = m_histogramBinCount s"
    by (simp add: execHistoConsolidate_setup_def cond_def condElse_def reading_def
        glGenTextures_def glCallsOf_def glCalls_def Let_def)
  show "TexSubImage1D (m_histogramBinCount s) (replicate (unat (m_histogramBinCount s)) 0)
     \<in> set (glSince s (execHistoConsolidate_setup s))"
    by (simp add: execHistoConsolidate_setup_def cond_def condElse_def reading_def
        glGenTextures_def glCallsOf_def glCalls_def Let_def resize_fill z glSince_def)
qed

lemma execHistoConsolidate_execute_frame:
  "m_histogramData (execHistoConsolidate_execute s) = m_histogramData s"
  "m_histogramBinCount (execHistoConsolidate_execute s) = m_histogramBinCount s"
  by (simp_all add: execHistoConsolidate_execute_def glCallsOf_def glCalls_def)

lemma execHistoConsolidate_retrieve_data:
  "m_histogramData (execHistoConsolidate_retrieve gpu s)
     = map (gpu_histogram gpu) [0 ..< unat (m_histogramBinCount s)]
       @ drop (unat (m_histogramBinCount s)) (m_histogramData s)"
  by (simp add: execHistoConsolidate_retrieve_def reading_def glCallsOf_def glCalls_def)

lemma execHistoDraw_histogramData: "m_histogramData (execHistoDraw s) = m_histogramData s"
proof -
  have "preserves (\<lambda>t. m_histogramData t = m_histogramData s) execHistoDraw"
    unfolding block_defs
    by (intro preserves_intros) (simp_all add: preserves_def leaf_defs Let_def)
  then show ?thesis by (simp add: preserves_def)
qed

lemma execHistoCalc_log: "\<exists>cs. glLog (execHistoCalc s) = glLog s @ cs"
proof -
  have "preserves (\<lambda>t. \<exists>cs. glLog t = glLog s @ cs) execHistoCalc"
    unfolding block_defs
    by (intro preserves_intros) (auto simp add: preserves_def leaf_defs Let_def)
  then show ?thesis by (simp add: preserves_def)
qed

lemma execHistoConsolidate_setup_log:
  "\<exists>cs. glLog (execHistoConsolidate_setup s) = glLog s @ cs"
proof -
  have "preserves (\<lambda>t. \<exists>cs. glLog t = glLog s @ cs) execHistoConsolidate_setup"
    unfolding block_defs
    by (intro preserves_intros) (auto simp add: preserves_def leaf_defs Let_def)
  then show ?thesis by (simp add: preserves_def)
qed

lemma consolidate_rest_log:
  "\<exists>cs. glLog (execHistoDraw (execHistoConsolidate_retrieve gpu
            (execHistoConsolidate_execute s))) = glLog s @ cs"
proof -
  have "preserves (\<lambda>t. \<exists>cs. glLog t = glLog s @ cs)
          (seq [execHistoConsolidate_execute, execHistoConsolidate_retrieve gpu, execHistoDraw])"
    unfolding block_defs
    by (intro preserves_intros) (auto simp add: preserves_def leaf_defs Let_def)
  then show ?thesis by (simp add: preserves_def)
qed

lemma setHistogramBinCountSlot_teardown_log:
  "\<exists>cs. glLog (setHistogramBinCountSlot_teardown b s) = glLog s @ cs"
proof -
  have "preserves (\<lambda>t. \<exists>cs. glLog t = glLog s @ cs) (setHistogramBinCountSlot_teardown b)"
    unfolding block_defs
    by (intro preserves_intros) (auto simp add: preserves_def leaf_defs Let_def)
  then show ?thesis by (simp add: preserves_def)
qed

text \<open>
  C6, amended. Let \<open>setHistogramBinCountSlot\<close> run with a bin count B2 that differs from
  the current one. Its first part resets the block-histogram and the consolidated-histogram
  handle to the unallocated value, deleting each texture that was allocated, and adopts B2.
  If an image is loaded, the recomputation follows, and before the consolidating pass is
  dispatched and read back the CPU-side histogram buffer holds exactly B2 zeros (which are
  also what is uploaded to the new histogram texture); the buffer has B2 entries at the end.
  If no image is loaded, the slot ends there and the CPU-side buffer is left as it was.
\<close>

theorem setHistogramBinCountSlot_rebuilds_histogram:
  assumes "histogramBinCount \<noteq> m_histogramBinCount s"
  shows "m_histogramBlocks (setHistogramBinCountSlot_teardown histogramBinCount s) = GLuint_max
     \<and> m_histogram (setHistogramBinCountSlot_teardown histogramBinCount s) = GLuint_max
     \<and> m_histogramBinCount (setHistogramBinCountSlot_teardown histogramBinCount s)
         = histogramBinCount
     \<and> (m_histogramBlocks s \<noteq> GLuint_max \<longrightarrow>
          DeleteTextures (m_histogramBlocks s)
            \<in> set (glSince s (setHistogramBinCountSlot_teardown histogramBinCount s))
          \<and> m_histogramBlocks s
            \<notin> set (glTextures (setHistogramBinCountSlot_teardown histogramBinCount s)))
     \<and> (m_histogram s \<noteq> GLuint_max \<longrightarrow>
          DeleteTextures (m_histogram s)
            \<in> set (glSince s (setHistogramBinCountSlot_teardown histogramBinCount s))
          \<and> m_histogram s
            \<notin> set (glTextures (setHistogramBinCountSlot_teardown histogramBinCount s)))
     \<and> (m_imageData s \<noteq> [] \<longrightarrow>
          setHistogramBinCountSlot gpu histogramBinCount s
            = execHistoDraw
                (execHistoConsolidate_retrieve gpu
                   (execHistoConsolidate_execute
                      (execHistoConsolidate_setup
                         (execHistoCalc (setHistogramBinCountSlot_teardown histogramBinCount s)))))
          \<and> m_histogramData
               (execHistoConsolidate_execute
                  (execHistoConsolidate_setup
                     (execHistoCalc (setHistogramBinCountSlot_teardown histogramBinCount s))))
              = replicate (unat histogramBinCount) 0
          \<and> TexSubImage1D histogramBinCount (replicate (unat histogramBinCount) 0)
              \<in> set (glSince s (setHistogramBinCountSlot gpu histogramBinCount s))
          \<and> length (m_histogramData (setHistogramBinCountSlot gpu histogramBinCount s))
              = unat histogramBinCount)
     \<and> (m_imageData s = [] \<longrightarrow>
          setHistogramBinCountSlot gpu histogramBinCount s
            = setHistogramBinCountSlot_teardown histogramBinCount s
          \<and> m_histogramData (setHistogramBinCountSlot gpu histogramBinCount s)
              = m_histogramData s)"
proof -
  let ?t = "setHistogramBinCountSlot_teardown histogramBinCount s"
  let ?c = "execHistoCalc ?t"
  let ?u = "execHistoConsolidate_setup ?c"
  let ?x = "execHistoConsolidate_execute ?u"
  let ?r = "execHistoConsolidate_retrieve gpu ?x"
  note e = setHistogramBinCountSlot_teardown_effect [of histogramBinCount s]
  have bc: "m_histogramBinCount ?c = histogramBinCount"
    by (simp add: execHistoCalc_histogram_frame e)
  have zero: "m_histogramData ?x = replicate (unat histogramBinCount) 0"
    by (simp add: execHistoConsolidate_execute_frame execHistoConsolidate_setup_zeroes bc)
  have bx: "m_histogramBinCount ?x = histogramBinCount"
    by (simp add: execHistoConsolidate_execute_frame execHistoConsolidate_setup_zeroes bc)
  have len: "length (m_histogramData (execHistoDraw ?r)) = unat histogramBinCount"
    by (simp add: execHistoDraw_histogramData execHistoConsolidate_retrieve_data zero bx)
  have loaded: "m_imageData s \<noteq> [] \<Longrightarrow>
      setHistogramBinCountSlot gpu histogramBinCount s = execHistoDraw ?r"
    using assms
    by (simp add: setHistogramBinCountSlot_def cond_def execHistoConsolidate_def
        setHistogramBinCountSlot_teardown_imageData)
  have empty: "m_imageData s = [] \<Longrightarrow> setHistogramBinCountSlot gpu histogramBinCount s = ?t"
    using assms
    by (simp add: setHistogramBinCountSlot_def cond_def
        setHistogramBinCountSlot_teardown_imageData)
  have up: "TexSubImage1D histogramBinCount (replicate (unat histogramBinCount) 0)
              \<in> set (glSince s (execHistoDraw ?r))"
  proof -
    obtain c1 where c1: "glLog ?t = glLog s @ c1"
      using setHistogramBinCountSlot_teardown_log by blast
    obtain c2 where c2: "glLog ?c = glLog ?t @ c2" using execHistoCalc_log by blast
    obtain c3 where c3: "glLog ?u = glLog ?c @ c3" using execHistoConsolidate_setup_log by blast
    obtain c4 where c4: "glLog (execHistoDraw ?r) = glLog ?u @ c4"
      using consolidate_rest_log by blast
    have "TexSubImage1D histogramBinCount (replicate (unat histogramBinCount) 0)
            \<in> set (glSince ?c ?u)"
      using execHistoConsolidate_setup_zeroes(3) [of ?c] by (simp add: bc)
    then have "TexSubImage1D histogramBinCount (replicate (unat histogramBinCount) 0) \<in> set c3"
      by (simp add: glSince_def c3)
    moreover have "glSince s (execHistoDraw ?r) = c1 @ c2 @ c3 @ c4"
      by (simp add: glSince_def c1 c2 c3 c4)
    ultimately show ?thesis by simp
  qed
  have p4: "m_histogramBlocks s \<noteq> GLuint_max \<longrightarrow>
          DeleteTextures (m_histogramBlocks s) \<in> set (glSince s ?t)
          \<and> m_histogramBlocks s \<notin> set (glTextures ?t)"
    using setHistogramBinCountSlot_teardown_deletes(1) by blast
  have p5: "m_histogram s \<noteq> GLuint_max \<longrightarrow>
          DeleteTextures (m_histogram s) \<in> set (glSince s ?t)
          \<and> m_histogram s \<notin> set (glTextures ?t)"
    using setHistogramBinCountSlot_teardown_deletes(2) by blast
  have p6: "m_imageData s \<noteq> [] \<longrightarrow>
          setHistogramBinCountSlot gpu histogramBinCount s = execHistoDraw ?r
          \<and> m_histogramData ?x = replicate (unat histogramBinCount) 0
          \<and> TexSubImage1D histogramBinCount (replicate (unat histogramBinCount) 0)
              \<in> set (glSince s (setHistogramBinCountSlot gpu histogramBinCount s))
          \<and> length (m_histogramData (setHistogramBinCountSlot gpu histogramBinCount s))
              = unat histogramBinCount"
    using loaded zero up len by simp
  have p7: "m_imageData s = [] \<longrightarrow>
          setHistogramBinCountSlot gpu histogramBinCount s = ?t
          \<and> m_histogramData (setHistogramBinCountSlot gpu histogramBinCount s)
              = m_histogramData s"
    using empty e(4) by simp
  from e(1) e(2) e(3) p4 p5 p6 p7 show ?thesis by blast
qed


text \<open>
  Witness for the amended C6: the bin count of the loaded example image is changed from
  2048 to 4.
\<close>

theorem setHistogramBinCountSlot_rebuilds_histogram_witness:
  "(4 :: GLuint) \<noteq> m_histogramBinCount exampleLoaded
   \<and> m_imageData exampleLoaded \<noteq> []
   \<and> m_histogramBlocks exampleLoaded \<noteq> GLuint_max
   \<and> m_histogram exampleLoaded \<noteq> GLuint_max
   \<and> DeleteTextures (m_histogramBlocks exampleLoaded)
        \<in> set (glSince exampleLoaded (setHistogramBinCountSlot_teardown 4 exampleLoaded))
   \<and> DeleteTextures (m_histogram exampleLoaded)
        \<in> set (glSince exampleLoaded (setHistogramBinCountSlot_teardown 4 exampleLoaded))
   \<and> m_histogramBlocks (setHistogramBinCountSlot_teardown 4 exampleLoaded) = GLuint_max
   \<and> m_histogram (setHistogramBinCountSlot_teardown 4 exampleLoaded) = GLuint_max
   \<and> m_histogramData
        (execHistoConsolidate_execute
           (execHistoConsolidate_setup
              (execHistoCalc (setHistogramBinCountSlot_teardown 4 exampleLoaded))))
       = replicate (unat (4 :: GLuint)) 0
   \<and> length (m_histogramData (setHistogramBinCountSlot exampleGpu 4 exampleLoaded))
       = unat (4 :: GLuint)"
proof -
  have b: "m_histogramBinCount exampleLoaded = 2048"
    by (simp add: exampleLoaded_def eval_defs)
  then have h: "(4 :: GLuint) \<noteq> m_histogramBinCount exampleLoaded" by simp
  have l: "m_imageData exampleLoaded \<noteq> []" by (simp add: exampleLoaded_facts)
  have a: "m_histogramBlocks exampleLoaded \<noteq> GLuint_max"
    "m_histogram exampleLoaded \<noteq> GLuint_max"
    by (simp_all add: exampleLoaded_facts GLuint_max_def)
  from setHistogramBinCountSlot_rebuilds_histogram [OF h, of exampleGpu] h l a
  show ?thesis by blast
qed

text \<open>
  C6, as stated, fails when no image is loaded: changing the bin count from 2048 to 4 then
  leaves the CPU-side histogram buffer with its 2048 entries.
\<close>

theorem setHistogramBinCountSlot_without_image_keeps_buffer:
  "m_histogramBinCount (newRenderer exampleCollaborators) = 2048
   \<and> m_histogramBinCount exampleEmptyRebinned = 4
   \<and> m_imageData exampleEmptyRebinned = []
   \<and> length (m_histogramData exampleEmptyRebinned) = 2048
   \<and> queue exampleEmptyRebinned = []"
  by (simp add: exampleEmptyRebinned_def eval_defs)

subsection \<open>The extrema future\<close>

lemma deliver_resolvedFrom:
  "resolvedFrom before s \<Longrightarrow> resolvedFrom before (deliver gpu m s)"
proof -
  have "preserves (resolvedFrom before) (deliver gpu m)"
  proof (cases m)
    case (UpdateViewMsg v)
    show ?thesis
    proof (cases v)
      case ImageView
      show ?thesis
        unfolding UpdateViewMsg ImageView deliver.simps updateViewSlot_def View.case block_defs
        by (intro preserves_intros)
           (auto simp add: preserves_def leaf_defs Let_def resolvedFrom_def extremaState_def
                 split: option.splits)
    next
      case HistogramView
      show ?thesis
        unfolding UpdateViewMsg HistogramView deliver.simps updateViewSlot_def View.case block_defs
        by (intro preserves_intros)
           (auto simp add: preserves_def leaf_defs Let_def resolvedFrom_def extremaState_def
                 split: option.splits)
    next
      case (OtherView n)
      show ?thesis
        unfolding UpdateViewMsg OtherView deliver.simps updateViewSlot_def View.case
        by (rule preserves_seq_Nil)
    qed
  next
    case (NewImageMsg d sz f)
    show ?thesis
      unfolding NewImageMsg deliver.simps block_defs
      by (intro preserves_intros)
         (auto simp add: preserves_def leaf_defs Let_def resolvedFrom_def extremaState_def
               split: option.splits)
  next
    case (SetHistogramBinCountMsg b)
    show ?thesis
      unfolding SetHistogramBinCountMsg deliver.simps block_defs
      by (intro preserves_intros)
         (auto simp add: preserves_def leaf_defs Let_def resolvedFrom_def extremaState_def
               split: option.splits)
  qed
  then show "resolvedFrom before s \<Longrightarrow> resolvedFrom before (deliver gpu m s)"
    by (simp add: preserves_def)
qed

lemma step_extremaState:
  "resolvedFrom (extremaState s) (snd (step e s))
   \<or> (\<exists>d sz f. e = CallShowImage d sz f \<and> d \<noteq> []
         \<and> extremaState (snd (step e s)) = (Some d, m_imageExtrema s))
   \<or> (\<exists>sz f. e = CallShowImage [] sz f
         \<and> extremaState (snd (step e s)) = (None, m_imageExtrema s))"
proof (cases e)
  case (CallUpdateView v)
  then show ?thesis
    by (cases v) (simp_all add: updateView_def resolvedFrom_def extremaState_def)
next
  case (CallShowImage d sz f)
  then show ?thesis
    by (auto simp add: showImage_def resolvedFrom_def extremaState_def)
next
  case (CallSetHistogramBinCount b)
  then show ?thesis
    by (simp add: setHistogramBinCount_def resolvedFrom_def extremaState_def)
next
  case (ThreadInit env)
  have "extremaState (snd (step (ThreadInit env) s)) = extremaState s"
    by (cases "threadInitSlot env s")
       (auto simp add: threadInitSlot_def makeContexts_def makeGlfs_def buildGlProgs_def
          glCalls_def extremaState_def Let_def split: option.splits if_splits)
  then show ?thesis using ThreadInit by (simp add: resolvedFrom_def)
next
  case (Deliver gpu)
  show ?thesis
  proof (cases "eventLoop s \<and> queue s \<noteq> []")
    case False
    then show ?thesis using Deliver by (auto simp add: resolvedFrom_def split: list.splits)
  next
    case True
    then obtain m ms where q: "queue s = m # ms" by (cases "queue s") auto
    have "resolvedFrom (extremaState s) (s\<lparr>queue := ms\<rparr>)"
      by (simp add: resolvedFrom_def extremaState_def)
    then have "resolvedFrom (extremaState s) (deliver gpu m (s\<lparr>queue := ms\<rparr>))"
      by (rule deliver_resolvedFrom)
    then show ?thesis using True q Deliver by simp
  qed
next
  case (WidgetInput iw hw)
  then show ?thesis by (simp add: resolvedFrom_def extremaState_def)
qed

lemma step_future:
  assumes "m_imageExtremaFuture (snd (step e s)) = Some d"
  shows "m_imageExtremaFuture s = Some d \<or> (d \<noteq> [] \<and> (\<exists>sz f. e = CallShowImage d sz f))"
  using step_extremaState [of s e] assms
  by (auto simp add: resolvedFrom_def extremaState_def)

lemma run_future:
  "m_imageExtremaFuture (run evs s) = Some d \<Longrightarrow>
     m_imageExtremaFuture s = Some d
     \<or> (d \<noteq> [] \<and> (\<exists>sz f. CallShowImage d sz f \<in> set evs))"
proof (induction evs arbitrary: s)
  case Nil
  then show ?case by simp
next
  case (Cons e evs)
  from Cons.IH [of "snd (step e s)"] Cons.prems
  have "m_imageExtremaFuture (snd (step e s)) = Some d
     \<or> (d \<noteq> [] \<and> (\<exists>sz f. CallShowImage d sz f \<in> set evs))"
    by simp
  then show ?case using step_future [of e s d] by auto
qed

text \<open>
  What replacing the handle achieves: \<open>showImage\<close> with empty data leaves no valid
  future, and a valid future found later was created by a later \<open>showImage\<close> call
  with non-empty data.
\<close>

lemma cleared_future_replaced:
  "m_imageExtremaFuture (snd (showImage [] imageSize filter' s)) = None"
  "m_imageExtremaFuture (run evs (snd (showImage [] imageSize filter' s))) = Some d
     \<Longrightarrow> d \<noteq> [] \<and> (\<exists>sz f. CallShowImage d sz f \<in> set evs)"
proof -
  let ?c = "snd (showImage [] imageSize filter' s)"
  show n: "m_imageExtremaFuture ?c = None"
    by (simp add: showImage_def)
  assume "m_imageExtremaFuture (run evs ?c) = Some d"
  from run_future [OF this] n
  show "d \<noteq> [] \<and> (\<exists>sz f. CallShowImage d sz f \<in> set evs)" by simp
qed

text \<open>
  C5 does not hold of the code. The example image \<open>[10, 20]\<close> is shown and drawn with the
  automatic range enabled, which caches its extrema (10, 20) and uploads them as gtpMin and
  gtpMax. Then \<open>showImage\<close> is called three times before the renderer thread delivers
  anything: with empty data, with the 2 x 1 image \<open>[30, 40]\<close>, and with empty data again;
  the last call replaces the future of \<open>[30, 40]\<close> by an invalid one. The first two
  messages are then delivered. When \<open>[30, 40]\<close> is drawn (the second draw of an image)
  the future is not valid, so \<open>m_imageExtrema\<close> is used as it is: the displayed image
  \<open>[30, 40]\<close> has the cached extrema (10, 20) of the image shown before the clearing
  calls, these are the range bound on the GPU, and no \<open>newImageExtrema\<close> other than the
  one of \<open>[10, 20]\<close> has been emitted.
\<close>

theorem cleared_image_extrema_stale:
  "m_imageData exampleLoaded = [10, 20]
   \<and> m_imageData exampleStale = [30, 40]
   \<and> m_gtpAutoMinMaxEnabled (m_histogramWidget exampleStale)
   \<and> m_imageExtremaFuture exampleStale = None
   \<and> m_imageExtrema exampleStale = findImageExtrema [10, 20]
   \<and> findImageExtrema [10, 20] = (10, 20)
   \<and> findImageExtrema [30, 40] = (30, 40)
   \<and> count_list (glLog exampleStale) (DrawArrays GL_TRIANGLE_FAN 4) = 2
   \<and> uploads ImageDraw_gtpMinLoc (glLog exampleStale) = [Finite 10]
   \<and> uploads ImageDraw_gtpMaxLoc (glLog exampleStale) = [Finite 20]
   \<and> gtpMin (m_imageDrawProg exampleStale) = Finite 10
   \<and> gtpMax (m_imageDrawProg exampleStale) = Finite 20
   \<and> emitted exampleStale = [NewImageExtrema 10 20]
   \<and> queue exampleStale = [NewImageMsg [] \<lparr>width = 0, height = 0\<rparr> False]"
  by (simp add: exampleStale_def exampleLoaded_def eval_defs uniform1fAt_def)

subsection \<open>Cached uniforms of the image-draw program\<close>

lemma uploads_append [simp]: "uploads loc (xs @ ys) = uploads loc xs @ uploads loc ys"
  by (induction xs) (simp_all split: option.splits)

























end
